theory Spec2Isabelle
  imports Complex_Main
begin

section \<open>Directory Scanner CLI: the scanning and filtering engine\<close>

text \<open>
  The program is the directory scanner whose text sits in
  \<^verbatim>\<open>foundation-javascript-cli/day-09-logger-tool/README.md\<close> (lines 34 to 475):
  \<^verbatim>\<open>parseArguments\<close>, \<^verbatim>\<open>parseSizeFilter\<close>, \<^verbatim>\<open>formatBytes\<close>, the four filter tests,
  \<^verbatim>\<open>scanDirectory\<close>, \<^verbatim>\<open>displayStats\<close> and \<^verbatim>\<open>main\<close>.

  Conventions of the embedding.
  \<^item> A JavaScript string is a \<^typ>\<open>string\<close>, the list of its bytes in UTF-8.
  \<^item> What the language itself provides and no finite table gives (the case mapping and
    the white space of Unicode, the numeric literals, the regular expressions, the
    division of doubles) is a parameter, the record \<open>language\<close>; every theorem about the
    scanner holds for each value of it.
  \<^item> A JavaScript number that the program computes exactly (a file size, a threshold
    built from a decimal literal and a power of 1024, a size divided by 1024) is a
    \<^typ>\<open>nat\<close> or a \<^typ>\<open>rat\<close>; \<^verbatim>\<open>Infinity\<close> and \<^verbatim>\<open>NaN\<close> are constructors of their own.
  \<^item> A \<^verbatim>\<open>throw\<close> is a value: \<open>Inl\<close> of a sum, or \<open>None\<close>.
\<close>

subsection \<open>Strings\<close>

definition isDigit :: "char \<Rightarrow> bool" where
  \<comment> \<open>the regular expression class \<^verbatim>\<open>\d\<close>\<close>
  "isDigit c = (c \<in> set ''0123456789'')"

definition digitValue :: "char \<Rightarrow> nat" where
  \<comment> \<open>the place of a digit in \<^verbatim>\<open>0123456789\<close>\<close>
  "digitValue c = length (takeWhile (\<lambda>d. d \<noteq> c) ''0123456789'')"

definition digitChar :: "nat \<Rightarrow> char" where
  "digitChar d = ''0123456789'' ! (d mod 10)"

definition charTable :: "string \<Rightarrow> string \<Rightarrow> char \<Rightarrow> char" where
  \<comment> \<open>the character at the same place of \<open>to\<close> for a character of \<open>from\<close>, any other unchanged\<close>
  "charTable from to c = (case map_of (zip from to) c of Some d \<Rightarrow> d | None \<Rightarrow> c)"

definition asciiToLowerChar :: "char \<Rightarrow> char" where
  "asciiToLowerChar = charTable ''ABCDEFGHIJKLMNOPQRSTUVWXYZ'' ''abcdefghijklmnopqrstuvwxyz''"

definition toUpperChar :: "char \<Rightarrow> char" where
  "toUpperChar = charTable ''abcdefghijklmnopqrstuvwxyz'' ''ABCDEFGHIJKLMNOPQRSTUVWXYZ''"

definition asciiToLowerCase :: "string \<Rightarrow> string" where
  \<comment> \<open>\<^verbatim>\<open>toLowerCase\<close> on strings of ASCII characters\<close>
  "asciiToLowerCase s = map asciiToLowerChar s"

definition toUpperCase :: "string \<Rightarrow> string" where
  \<comment> \<open>\<^verbatim>\<open>toUpperCase\<close> on the unit of a size filter, whose letters the regular expression has
      matched against \<^verbatim>\<open>KB|MB|GB|B\<close>\<close>
  "toUpperCase s = map toUpperChar s"

fun startsWith :: "string \<Rightarrow> string \<Rightarrow> bool" where
  \<comment> \<open>\<^verbatim>\<open>s.startsWith(p)\<close>, the subject first\<close>
  "startsWith s [] = True"
| "startsWith [] (p # ps) = False"
| "startsWith (c # cs) (p # ps) = (c = p \<and> startsWith cs ps)"

fun includesStr :: "string \<Rightarrow> string \<Rightarrow> bool" where
  \<comment> \<open>\<^verbatim>\<open>s.includes(t)\<close>: \<open>t\<close> occurs in \<open>s\<close> as a substring\<close>
  "includesStr [] t = (t = [])"
| "includesStr (c # cs) t = (startsWith (c # cs) t \<or> includesStr cs t)"

subsection \<open>Errors\<close>

text \<open>One constructor for each \<^verbatim>\<open>throw new Error(...)\<close> of the argument parsing.\<close>

datatype error =
    DepthRequiresNumber
  | DepthNotNonNegative
  | ExtRequiresExtensions
  | NameRequiresPattern
  | SizeRequiresFilter
  | InvalidSizeFilterFormat
  | SearchRequiresText
  | UnknownOption string
  | UnexpectedArgument string
  | MissingDirectoryPath

subsection \<open>The language\<close>

datatype number = NaN | NegInfinity | Finite rat | Infinity

type_synonym regexp = "string \<Rightarrow> (string \<Rightarrow> bool) option"
  \<comment> \<open>from the source of an expression to \<open>None\<close> when the constructor throws a
      \<^verbatim>\<open>SyntaxError\<close>, and to the \<^verbatim>\<open>test\<close> of the compiled expression otherwise\<close>

record language =
  toLowerCase :: "string \<Rightarrow> string"
    \<comment> \<open>\<^verbatim>\<open>String.prototype.toLowerCase\<close>\<close>
  trim :: "string \<Rightarrow> string"
    \<comment> \<open>\<^verbatim>\<open>String.prototype.trim\<close>\<close>
  Number :: "string \<Rightarrow> number"
    \<comment> \<open>\<^verbatim>\<open>Number(text)\<close>\<close>
  RegExp :: regexp
    \<comment> \<open>\<^verbatim>\<open>new RegExp(source, 'i')\<close>\<close>
  numberDivide :: "nat \<Rightarrow> nat \<Rightarrow> rat"
    \<comment> \<open>\<^verbatim>\<open>a / b\<close> on two numbers that are natural: the double nearest to the quotient\<close>

subsection \<open>parseSizeFilter\<close>

record size_filter =
  operator :: string
  bytes :: rat

text \<open>
  The three groups of \<^verbatim>\<open>/^([><=]=?)(\d+(?:\.\d+)?)(KB|MB|GB|B)?$/i\<close>, read left to right.
  Each greedy choice is the only one that can lead to a match (after the operator a digit
  must follow, after the digits a dot, a unit letter or the end), so no backtracking is
  lost.
\<close>

fun matchOperator :: "string \<Rightarrow> (string \<times> string) option" where
  \<comment> \<open>group 1, \<^verbatim>\<open>[><=]=?\<close>: the operator and the rest of the input\<close>
  "matchOperator [] = None"
| "matchOperator (c # cs) =
     (if c = CHR ''>'' \<or> c = CHR ''<'' \<or> c = CHR ''=''
      then (case cs of
              [] \<Rightarrow> Some ([c], [])
            | d # ds \<Rightarrow> if d = CHR ''='' then Some ([c, d], ds) else Some ([c], d # ds))
      else None)"

definition matchNumber :: "string \<Rightarrow> (string \<times> string) option" where
  \<comment> \<open>group 2, \<^verbatim>\<open>\d+(?:\.\d+)?\<close>: the literal and the rest of the input\<close>
  "matchNumber s =
     (let ip = takeWhile isDigit s; r = dropWhile isDigit s in
      if ip = [] then None
      else (case r of
              [] \<Rightarrow> Some (ip, [])
            | c # cs \<Rightarrow>
                if c = CHR ''.'' \<and> takeWhile isDigit cs \<noteq> []
                then Some (ip @ [c] @ takeWhile isDigit cs, dropWhile isDigit cs)
                else Some (ip, c # cs)))"

definition matchUnit :: "string \<Rightarrow> string option option" where
  \<comment> \<open>group 3 and the end anchor, \<^verbatim>\<open>(KB|MB|GB|B)?$\<close> under the flag \<^verbatim>\<open>i\<close>:
      \<open>Some None\<close> when the group did not take part, \<open>None\<close> when the rest does not match\<close>
  "matchUnit r =
     (if r = [] then Some None
      else if toUpperCase r \<in> set [''KB'', ''MB'', ''GB'', ''B''] then Some (Some r)
      else None)"

definition digitsValue :: "string \<Rightarrow> nat" where
  "digitsValue ds = foldl (\<lambda>acc c. 10 * acc + digitValue c) 0 ds"

definition Number_decimal :: "string \<Rightarrow> rat" where
  \<comment> \<open>\<^verbatim>\<open>Number(sizeStr)\<close> on a string of group 2: digits, then perhaps a dot and digits\<close>
  "Number_decimal s =
     (let ip = takeWhile (\<lambda>c. c \<noteq> CHR ''.'') s;
          fp = drop 1 (dropWhile (\<lambda>c. c \<noteq> CHR ''.'') s)
      in of_nat (digitsValue ip) + of_nat (digitsValue fp) / 10 ^ length fp)"

definition multipliers :: "string \<Rightarrow> rat option" where
  "multipliers u =
     (if u = ''B'' then Some 1
      else if u = ''KB'' then Some 1024
      else if u = ''MB'' then Some (1024 * 1024)
      else if u = ''GB'' then Some (1024 * 1024 * 1024)
      else None)"

definition parseSizeFilter :: "string \<Rightarrow> error + size_filter" where
  "parseSizeFilter filterStr =
     (case matchOperator filterStr of
        None \<Rightarrow> Inl InvalidSizeFilterFormat
      | Some (op, r1) \<Rightarrow>
          (case matchNumber r1 of
             None \<Rightarrow> Inl InvalidSizeFilterFormat
           | Some (sizeStr, r2) \<Rightarrow>
               (case matchUnit r2 of
                  None \<Rightarrow> Inl InvalidSizeFilterFormat
                | Some u \<Rightarrow>
                    (let unit = (case u of None \<Rightarrow> ''B'' | Some v \<Rightarrow> v);
                         size' = Number_decimal sizeStr;
                         b = size' * (case multipliers (toUpperCase unit) of
                                       Some m \<Rightarrow> m | None \<Rightarrow> 1)
                     in Inr \<lparr>operator = op, bytes = b\<rparr>))))"

subsection \<open>matchesSizeFilter\<close>

definition matchesSizeFilter :: "nat \<Rightarrow> size_filter option \<Rightarrow> bool" where
  "matchesSizeFilter fileSize sf =
     (case sf of
        None \<Rightarrow> True
      | Some f \<Rightarrow>
          if operator f = ''>'' then of_nat fileSize > bytes f
          else if operator f = ''<'' then of_nat fileSize < bytes f
          else if operator f = ''='' then of_nat fileSize = bytes f
          else if operator f = ''>='' then of_nat fileSize \<ge> bytes f
          else if operator f = ''<='' then of_nat fileSize \<le> bytes f
          else True)"

subsection \<open>formatBytes\<close>

definition units :: "string list" where
  "units = [''B'', ''KB'', ''MB'', ''GB'']"

function formatLoop :: "rat \<Rightarrow> nat \<Rightarrow> rat \<times> nat" where
  \<comment> \<open>the \<^verbatim>\<open>while\<close> loop on \<^verbatim>\<open>size\<close> and \<^verbatim>\<open>unitIndex\<close>\<close>
  "formatLoop size' unitIndex =
     (if size' \<ge> 1024 \<and> unitIndex < length units - 1
      then formatLoop (size' / 1024) (unitIndex + 1)
      else (size', unitIndex))"
  by pat_completeness auto
termination
  by (relation "measure (\<lambda>(s, i). length units - i)") (auto simp: units_def)

declare formatLoop.simps [simp del]

function showNat :: "nat \<Rightarrow> string" where
  \<comment> \<open>the decimal digits of a natural number\<close>
  "showNat n = (if n < 10 then [digitChar n] else showNat (n div 10) @ [digitChar (n mod 10)])"
  by pat_completeness auto
termination
  by (relation "measure id") auto

declare showNat.simps [simp del]

definition toFixed2 :: "rat \<Rightarrow> string" where
  \<comment> \<open>\<^verbatim>\<open>x.toFixed(2)\<close> for \<open>\<bar>x\<bar> < 10^21\<close>: the integer \<open>n\<close> nearest to \<open>100 * \<bar>x\<bar>\<close>, the larger
      one of two, printed with its last two digits after the point\<close>
  "toFixed2 x =
     (let n = nat \<lfloor>\<bar>x\<bar> * 100 + 1 / 2\<rfloor>
      in (if x < 0 then ''-'' else []) @ showNat (n div 100) @ ''.''
         @ [digitChar (n div 10 mod 10), digitChar (n mod 10)])"

definition formatBytes :: "rat \<Rightarrow> string" where
  "formatBytes b =
     (case formatLoop b 0 of (size', unitIndex) \<Rightarrow> toFixed2 size' @ '' '' @ units ! unitIndex)"

subsection \<open>matchesExtension\<close>

type_synonym path = "string list"
  \<comment> \<open>a normalized absolute path, segment by segment\<close>

definition join :: "path \<Rightarrow> string \<Rightarrow> path" where
  \<comment> \<open>\<^verbatim>\<open>path.join(dirPath, item)\<close> for a name \<^verbatim>\<open>readdirSync\<close> lists\<close>
  "join dirPath item = dirPath @ [item]"

definition basename :: "path \<Rightarrow> string" where
  "basename p = (case rev p of [] \<Rightarrow> [] | b # _ \<Rightarrow> b)"

fun relative :: "path \<Rightarrow> path \<Rightarrow> path" where
  \<comment> \<open>\<^verbatim>\<open>path.relative(from, to)\<close>: the common prefix dropped, one \<^verbatim>\<open>..\<close> for each segment
      of \<open>from\<close> that is left\<close>
  "relative [] bs = bs"
| "relative (a # as) [] = replicate (length (a # as)) ''..''"
| "relative (a # as) (b # bs) =
     (if a = b then relative as bs else replicate (length (a # as)) ''..'' @ (b # bs))"

definition extname_base :: "string \<Rightarrow> string" where
  \<comment> \<open>\<^verbatim>\<open>path.extname\<close> on a file name: from the last dot on; empty when the name has no dot,
      when its only dot is its first character, and for the name \<^verbatim>\<open>..\<close>\<close>
  "extname_base b =
     (let after = rev (takeWhile (\<lambda>c. c \<noteq> CHR ''.'') (rev b)) in
      if CHR ''.'' \<notin> set b then []
      else if length after + 1 = length b \<or> b = ''..'' then []
      else CHR ''.'' # after)"

definition extname :: "path \<Rightarrow> string" where
  \<comment> \<open>\<^verbatim>\<open>path.extname(filePath)\<close>: the extension of the last segment\<close>
  "extname filePath = extname_base (basename filePath)"

definition matchesExtension :: "language \<Rightarrow> path \<Rightarrow> string list \<Rightarrow> bool" where
  "matchesExtension js filePath exts =
     (if length exts = 0 then True
      else toLowerCase js (extname filePath) \<in> set exts)"

subsection \<open>matchesNamePattern\<close>

text \<open>
  \<^verbatim>\<open>new RegExp(source, 'i')\<close> and its \<^verbatim>\<open>test\<close> belong to the language: the function takes
  them as its first argument.
\<close>

definition replaceChar :: "char \<Rightarrow> string \<Rightarrow> string \<Rightarrow> string" where
  \<comment> \<open>\<^verbatim>\<open>s.replace(/c/g, r)\<close> for one character \<open>c\<close>\<close>
  "replaceChar c r s = concat (map (\<lambda>d. if d = c then r else [d]) s)"

definition matchesNamePattern :: "regexp \<Rightarrow> string \<Rightarrow> string option \<Rightarrow> bool option" where
  \<comment> \<open>\<open>None\<close>: the constructor threw. \<^verbatim>\<open>!pattern\<close> holds for \<^verbatim>\<open>null\<close> and for the empty
      string.\<close>
  "matchesNamePattern rx fileName pattern =
     (case pattern of
        None \<Rightarrow> Some True
      | Some p \<Rightarrow>
          if p = [] then Some True
          else (case rx (replaceChar (CHR ''?'') ''.'' (replaceChar (CHR ''*'') ''.*'' p)) of
                  None \<Rightarrow> None
                | Some test \<Rightarrow> Some (test fileName)))"

text \<open>
  A fragment of the regular expressions of the language, enough to run the patterns of
  the documentation: a source made of literal characters, the dot and the quantifier
  \<^verbatim>\<open>*\<close> after one of them. Under the flag \<^verbatim>\<open>i\<close> two characters match when their upper
  cases agree; the dot matches every character but a line terminator; \<^verbatim>\<open>test\<close> searches
  for a match starting anywhere in the subject. For a source outside the fragment
  \<open>RegExp_i\<close> is \<open>None\<close> and says nothing about the language.
\<close>

datatype atom = AnyChar | Lit char

datatype item = One atom | Star atom

definition syntaxCharacters :: "string" where
  "syntaxCharacters = ''^$.*+?()[]{}|'' @ [CHR 0x5C]"

definition atomOf :: "char \<Rightarrow> atom option" where
  "atomOf c =
     (if c = CHR ''.'' then Some AnyChar
      else if c \<in> set syntaxCharacters then None
      else Some (Lit c))"

fun parseRegExp :: "string \<Rightarrow> item list option" where
  "parseRegExp [] = Some []"
| "parseRegExp [c] = map_option (\<lambda>a. [One a]) (atomOf c)"
| "parseRegExp (c # d # ds) =
     (case atomOf c of
        None \<Rightarrow> None
      | Some a \<Rightarrow>
          if d = CHR ''*'' then map_option (\<lambda>r. Star a # r) (parseRegExp ds)
          else map_option (\<lambda>r. One a # r) (parseRegExp (d # ds)))"

definition atomMatches :: "atom \<Rightarrow> char \<Rightarrow> bool" where
  "atomMatches a c =
     (case a of
        AnyChar \<Rightarrow> c \<noteq> CHR 0x0A \<and> c \<noteq> CHR 0x0D
      | Lit l \<Rightarrow> toUpperChar l = toUpperChar c)"

fun matchHere :: "item list \<Rightarrow> string \<Rightarrow> bool" where
  \<comment> \<open>some prefix of the subject matches the whole expression\<close>
  "matchHere [] s = True"
| "matchHere (One a # r) [] = False"
| "matchHere (One a # r) (c # cs) = (atomMatches a c \<and> matchHere r cs)"
| "matchHere (Star a # r) [] = matchHere r []"
| "matchHere (Star a # r) (c # cs) =
     (matchHere r (c # cs) \<or> (atomMatches a c \<and> matchHere (Star a # r) cs))"

fun regexSearch :: "item list \<Rightarrow> string \<Rightarrow> bool" where
  "regexSearch r [] = matchHere r []"
| "regexSearch r (c # cs) = (matchHere r (c # cs) \<or> regexSearch r cs)"

definition RegExp_i :: regexp where
  "RegExp_i source = map_option regexSearch (parseRegExp source)"

subsection \<open>containsSearchText\<close>

text \<open>
  What the program does to the world, in the order it does it: a \<^verbatim>\<open>readFileSync\<close> of a
  candidate file, a \<^verbatim>\<open>console.warn\<close> for a directory.
\<close>

datatype event = ReadFile path | Warning path

definition containsSearchText ::
  "language \<Rightarrow> path \<Rightarrow> string option \<Rightarrow> string option \<Rightarrow> bool \<times> event list" where
  \<comment> \<open>\<open>content\<close> is what \<^verbatim>\<open>fs.readFileSync(filePath, 'utf8')\<close> gives: \<open>None\<close> when it
      throws. \<^verbatim>\<open>!searchText\<close> holds for \<^verbatim>\<open>null\<close> and for the empty string.\<close>
  "containsSearchText js filePath content text =
     (case text of
        None \<Rightarrow> (True, [])
      | Some t \<Rightarrow>
          if t = [] then (True, [])
          else (case content of
                  Some c \<Rightarrow>
                    (includesStr (toLowerCase js c) (toLowerCase js t), [ReadFile filePath])
                | None \<Rightarrow> (False, [ReadFile filePath])))"

subsection \<open>The file system and the options\<close>

record stats =
  size' :: nat
  mtime :: int
  birthtime :: int

text \<open>
  What \<^verbatim>\<open>statSync\<close>, \<^verbatim>\<open>readdirSync\<close> and \<^verbatim>\<open>readFileSync\<close> answer below one path, as
  one snapshot.
\<close>

datatype node =
    RegularFile stats "string option"
      \<comment> \<open>\<^verbatim>\<open>isFile()\<close>; the content as text, \<open>None\<close> when reading it throws\<close>
  | Directory "(string \<times> node) list"
      \<comment> \<open>\<^verbatim>\<open>isDirectory()\<close>; the names \<^verbatim>\<open>readdirSync\<close> lists, in its order\<close>
  | UnreadableDirectory
      \<comment> \<open>\<^verbatim>\<open>isDirectory()\<close>, and \<^verbatim>\<open>readdirSync\<close> throws\<close>
  | Special
      \<comment> \<open>\<^verbatim>\<open>statSync\<close> succeeds with neither \<^verbatim>\<open>isDirectory()\<close> nor \<^verbatim>\<open>isFile()\<close>\<close>
  | Missing
      \<comment> \<open>\<^verbatim>\<open>statSync\<close> throws\<close>

definition exceeds :: "nat \<Rightarrow> number \<Rightarrow> bool" where
  \<comment> \<open>\<^verbatim>\<open>currentDepth > options.depth\<close>\<close>
  "exceeds currentDepth d =
     (case d of
        NaN \<Rightarrow> False
      | NegInfinity \<Rightarrow> True
      | Finite q \<Rightarrow> of_nat currentDepth > q
      | Infinity \<Rightarrow> False)"

record options =
  dirPath :: "string option"
  depth :: number
  extensions :: "string list"
  namePattern :: "string option"
  sizeFilter :: "size_filter option"
  searchText :: "string option"
  showTree :: bool
  showStats :: bool
  outputJson :: bool
  outputCsv :: bool
  baseDir :: "path option"
    \<comment> \<open>\<open>None\<close> until \<^verbatim>\<open>main\<close> sets it\<close>

record fileInfo =
  name :: string
  path :: path
  relativePath :: path
  size' :: nat
  sizeHuman :: string
  extension :: string
  modified :: int
  created :: int

subsection \<open>scanDirectory\<close>

definition mkFileInfo :: "language \<Rightarrow> path \<Rightarrow> string \<Rightarrow> path \<Rightarrow> stats \<Rightarrow> fileInfo" where
  \<comment> \<open>the object literal \<^verbatim>\<open>fileInfo\<close>\<close>
  "mkFileInfo js base item itemPath st =
     \<lparr>name = item,
      path = itemPath,
      relativePath = relative base itemPath,
      size' = stats.size' st,
      sizeHuman = formatBytes (of_nat (stats.size' st)),
      extension = toLowerCase js (extname_base item),
      modified = mtime st,
      created = birthtime st\<rparr>"

definition applyFilters ::
  "language \<Rightarrow> options \<Rightarrow> path \<Rightarrow> string \<Rightarrow> stats \<Rightarrow> string option \<Rightarrow> bool option \<times> event list" where
  \<comment> \<open>the condition of the \<^verbatim>\<open>if\<close> under \<^verbatim>\<open>// Apply filters\<close>, its \<^verbatim>\<open>&&\<close> from left to
      right; \<open>None\<close> when \<^verbatim>\<open>matchesNamePattern\<close> throws\<close>
  "applyFilters js opts itemPath item st content =
     (if \<not> matchesExtension js itemPath (extensions opts) then (Some False, [])
      else (case matchesNamePattern (RegExp js) item (namePattern opts) of
              None \<Rightarrow> (None, [])
            | Some False \<Rightarrow> (Some False, [])
            | Some True \<Rightarrow>
                if \<not> matchesSizeFilter (stats.size' st) (sizeFilter opts) then (Some False, [])
                else (case containsSearchText js itemPath content (searchText opts) of
                        (b, evs) \<Rightarrow> (Some b, evs))))"

text \<open>
  \<open>scanDirectory\<close> gives the array it returns and the events in their order. \<open>scanItems\<close>
  is the \<^verbatim>\<open>for\<close> loop from one item on: what it pushes, its events, and whether it
  ended in a \<^verbatim>\<open>throw\<close>, which the \<^verbatim>\<open>catch\<close> of the directory turns into a warning. The
  array \<^verbatim>\<open>results\<close> that the loop pushes to is the concatenation of what its steps give.
\<close>

fun scanDirectory :: "language \<Rightarrow> options \<Rightarrow> path \<Rightarrow> nat \<Rightarrow> node \<Rightarrow> fileInfo list \<times> event list"
  and scanItems ::
    "language \<Rightarrow> options \<Rightarrow> path \<Rightarrow> nat \<Rightarrow> (string \<times> node) list \<Rightarrow> (fileInfo list \<times> event list) \<times> bool"
where
  "scanDirectory js opts dir currentDepth n =
     (if exceeds currentDepth (depth opts) then ([], [])
      else (case n of
              Directory items \<Rightarrow>
                (case scanItems js opts dir currentDepth items of
                   ((results, evs), threw) \<Rightarrow>
                     (results, if threw then evs @ [Warning dir] else evs))
            | _ \<Rightarrow> ([], [Warning dir])))"
| "scanItems js opts dir currentDepth [] = (([], []), False)"
| "scanItems js opts dir currentDepth ((item, n) # rest) =
     (case n of
        Missing \<Rightarrow> (([], []), True)
      | Special \<Rightarrow> scanItems js opts dir currentDepth rest
      | RegularFile st content \<Rightarrow>
          (case baseDir opts of
             None \<Rightarrow> (([], []), True)
           | Some base \<Rightarrow>
               (case applyFilters js opts (join dir item) item st content of
                  (None, evs) \<Rightarrow> (([], evs), True)
                | (Some pass, evs) \<Rightarrow>
                    (case scanItems js opts dir currentDepth rest of
                       ((results, evs'), threw) \<Rightarrow>
                         (((if pass then [mkFileInfo js base item (join dir item) st] else [])
                             @ results,
                           evs @ evs'), threw))))
      | _ \<Rightarrow>
          (case scanDirectory js opts (join dir item) (currentDepth + 1) n of
             (subResults, evs) \<Rightarrow>
               (case scanItems js opts dir currentDepth rest of
                  ((results, evs'), threw) \<Rightarrow> ((subResults @ results, evs @ evs'), threw))))"

declare scanDirectory.simps [simp del]

subsection \<open>displayStats\<close>

record sizeDistribution =
  small :: nat
  medium :: nat
  large :: nat
  huge :: nat

record statistics =
  totalFiles :: nat
  totalSize :: nat
  averageSize :: string
  extensionCounts :: "(string \<times> nat) list"
  extensionLines :: "(string \<times> nat) list"
  distribution :: sizeDistribution

fun increment :: "string \<Rightarrow> (string \<times> nat) list \<Rightarrow> (string \<times> nat) list" where
  \<comment> \<open>\<^verbatim>\<open>acc[ext] = (acc[ext] || 0) + 1\<close> on the entries of \<^verbatim>\<open>acc\<close> in insertion order. The keys
      of the scanner are \<^verbatim>\<open>(no extension)\<close> and extensions, which start with a dot: none
      is a property that the empty object inherits.\<close>
  "increment ext [] = [(ext, 1)]"
| "increment ext ((k, c) # acc) =
     (if k = ext then (k, c + 1) # acc else (k, c) # increment ext acc)"

definition extensionKey :: "fileInfo \<Rightarrow> string" where
  \<comment> \<open>\<^verbatim>\<open>file.extension || '(no extension)'\<close>\<close>
  "extensionKey file = (if extension file = [] then ''(no extension)'' else extension file)"

definition displayStats :: "language \<Rightarrow> fileInfo list \<Rightarrow> statistics" where
  \<comment> \<open>the numbers \<^verbatim>\<open>displayStats\<close> prints; \<open>extensionLines\<close> is the histogram in the order
      of its lines, sorted by \<^verbatim>\<open>b - a\<close> on the counts\<close>
  "displayStats js files =
     (let total = length files;
          totalSz = foldl (\<lambda>sum file. sum + fileInfo.size' file) 0 files;
          counts = foldl (\<lambda>acc file. increment (extensionKey file) acc) [] files
      in \<lparr>totalFiles = total,
          totalSize = totalSz,
          averageSize = (if total > 0 then formatBytes (numberDivide js totalSz total)
                         else ''0 B''),
          extensionCounts = counts,
          extensionLines = sort_key (\<lambda>(ext, count). - int count) counts,
          distribution =
            \<lparr>small = length (filter (\<lambda>f. fileInfo.size' f < 1024) files),
             medium = length (filter (\<lambda>f. fileInfo.size' f \<ge> 1024
                                          \<and> fileInfo.size' f < 1024 * 1024) files),
             large = length (filter (\<lambda>f. fileInfo.size' f \<ge> 1024 * 1024
                                         \<and> fileInfo.size' f < 1024 * 1024 * 1024) files),
             huge = length (filter (\<lambda>f. fileInfo.size' f \<ge> 1024 * 1024 * 1024) files)\<rparr>\<rparr>)"

subsection \<open>parseArguments\<close>

definition isNaN :: "number \<Rightarrow> bool" where
  "isNaN x = (x = NaN)"

definition negative :: "number \<Rightarrow> bool" where
  \<comment> \<open>\<^verbatim>\<open>depth < 0\<close>\<close>
  "negative x = (case x of NegInfinity \<Rightarrow> True | Finite q \<Rightarrow> q < 0 | _ \<Rightarrow> False)"

fun splitOn :: "char \<Rightarrow> string \<Rightarrow> string list" where
  \<comment> \<open>\<^verbatim>\<open>s.split(sep)\<close> for a separator of one character\<close>
  "splitOn sep [] = [[]]"
| "splitOn sep (c # cs) =
     (if c = sep then [] # splitOn sep cs
      else (case splitOn sep cs of
              [] \<Rightarrow> [[c]]
            | p # ps \<Rightarrow> (c # p) # ps))"

definition defaults :: options where
  \<comment> \<open>the object literal \<^verbatim>\<open>options\<close>\<close>
  "defaults =
     \<lparr>dirPath = None, depth = Infinity, extensions = [], namePattern = None,
      sizeFilter = None, searchText = None, showTree = False, showStats = False,
      outputJson = False, outputCsv = False, baseDir = None\<rparr>"

definition noValue :: "string list \<Rightarrow> bool" where
  \<comment> \<open>\<^verbatim>\<open>!args[i + 1] || args[i + 1].startsWith('--')\<close>, on the arguments after \<^verbatim>\<open>args[i]\<close>\<close>
  "noValue rest = (case rest of [] \<Rightarrow> True | v # _ \<Rightarrow> v = [] \<or> startsWith v ''--'')"

fun parseLoop :: "language \<Rightarrow> string list \<Rightarrow> options \<Rightarrow> error + options" where
  \<comment> \<open>the \<^verbatim>\<open>for\<close> loop from \<^verbatim>\<open>args[i]\<close> on; an option with a value steps over two
      arguments. Where \<open>noValue rest\<close> is false, \<open>hd rest\<close> is \<^verbatim>\<open>args[i + 1]\<close>.\<close>
  "parseLoop js [] opts = Inr opts"
| "parseLoop js (arg # rest) opts =
     (if startsWith arg ''--'' then
        (if arg = ''--depth'' then
           (if noValue rest then Inl DepthRequiresNumber
            else if isNaN (Number js (hd rest)) \<or> negative (Number js (hd rest))
            then Inl DepthNotNonNegative
            else parseLoop js (tl rest) (opts\<lparr>depth := Number js (hd rest)\<rparr>))
         else if arg = ''--ext'' then
           (if noValue rest then Inl ExtRequiresExtensions
            else parseLoop js (tl rest)
                   (opts\<lparr>extensions :=
                      map (\<lambda>ext. toLowerCase js (trim js ext))
                        (splitOn (CHR '','') (hd rest))\<rparr>))
         else if arg = ''--name'' then
           (if noValue rest then Inl NameRequiresPattern
            else parseLoop js (tl rest) (opts\<lparr>namePattern := Some (hd rest)\<rparr>))
         else if arg = ''--size'' then
           (if noValue rest then Inl SizeRequiresFilter
            else (case parseSizeFilter (hd rest) of
                    Inl e \<Rightarrow> Inl e
                  | Inr f \<Rightarrow> parseLoop js (tl rest) (opts\<lparr>sizeFilter := Some f\<rparr>)))
         else if arg = ''--search'' then
           (if noValue rest then Inl SearchRequiresText
            else parseLoop js (tl rest) (opts\<lparr>searchText := Some (hd rest)\<rparr>))
         else if arg = ''--tree'' then parseLoop js rest (opts\<lparr>showTree := True\<rparr>)
         else if arg = ''--stats'' then parseLoop js rest (opts\<lparr>showStats := True\<rparr>)
         else if arg = ''--json'' then parseLoop js rest (opts\<lparr>outputJson := True\<rparr>)
         else if arg = ''--csv'' then parseLoop js rest (opts\<lparr>outputCsv := True\<rparr>)
         else if arg = ''--help'' then parseLoop js rest opts
         else Inl (UnknownOption arg))
      else if dirPath opts = None \<or> dirPath opts = Some [] then
        parseLoop js rest (opts\<lparr>dirPath := Some arg\<rparr>)
      else Inl (UnexpectedArgument arg))"

definition parseArguments :: "language \<Rightarrow> string list \<Rightarrow> error + options" where
  \<comment> \<open>\<open>argv\<close> is \<^verbatim>\<open>process.argv\<close>\<close>
  "parseArguments js argv =
     (case parseLoop js (drop 2 argv) defaults of
        Inl e \<Rightarrow> Inl e
      | Inr opts \<Rightarrow>
          if dirPath opts = None \<or> dirPath opts = Some [] then Inl MissingDirectoryPath
          else Inr opts)"

subsection \<open>main\<close>

definition isHelpRequested :: "string list \<Rightarrow> bool" where
  "isHelpRequested argv = (length argv \<le> 2 \<or> ''--help'' \<in> set argv)"

record world =
  resolve :: "string \<Rightarrow> path"
    \<comment> \<open>\<^verbatim>\<open>path.resolve(process.cwd(), dirPath)\<close>\<close>
  nodeAt :: "path \<Rightarrow> node"
    \<comment> \<open>the file system below a path\<close>

definition existsSync :: "node \<Rightarrow> bool" where
  "existsSync n = (n \<noteq> Missing)"

definition isDirectory :: "node \<Rightarrow> bool" where
  \<comment> \<open>\<^verbatim>\<open>fs.statSync(absolutePath).isDirectory()\<close>\<close>
  "isDirectory n = (case n of Directory items \<Rightarrow> True | UnreadableDirectory \<Rightarrow> True | _ \<Rightarrow> False)"

datatype failure =
    ConfigurationError error
  | DirectoryNotFound path
  | NotADirectory
  | UncaughtTypeError

record outcome =
  exitCode :: nat
  usageShown :: bool
  failed :: "failure option"
  scanned :: "(fileInfo list \<times> event list) option"

text \<open>
  \<open>main\<close> up to \<^verbatim>\<open>process.exit\<close>: the exit code, whether the usage text was printed,
  the error reported and the scan, if one ran. Between the scan and \<^verbatim>\<open>process.exit(0)\<close>
  the program only prints (\<^verbatim>\<open>displayTree\<close>, \<^verbatim>\<open>displayStats\<close>, \<^verbatim>\<open>outputJson\<close>,
  \<^verbatim>\<open>outputCsv\<close>, the list), and these have no \<^verbatim>\<open>throw\<close> that leaves them.
  \<^verbatim>\<open>path.resolve\<close> throws a \<^verbatim>\<open>TypeError\<close> on a path that is not a string, which ends the
  process with the code 1.
\<close>

definition main :: "language \<Rightarrow> world \<Rightarrow> string list \<Rightarrow> outcome" where
  "main js w argv =
     (if isHelpRequested argv
      then \<lparr>exitCode = 0, usageShown = True, failed = None, scanned = None\<rparr>
      else (case parseArguments js argv of
              Inl e \<Rightarrow>
                \<lparr>exitCode = 1, usageShown = True, failed = Some (ConfigurationError e),
                 scanned = None\<rparr>
            | Inr opts \<Rightarrow>
                (case dirPath opts of
                   None \<Rightarrow>
                     \<lparr>exitCode = 1, usageShown = False, failed = Some UncaughtTypeError,
                      scanned = None\<rparr>
                 | Some d \<Rightarrow>
                     (let absolutePath = resolve w d in
                      if \<not> existsSync (nodeAt w absolutePath)
                      then \<lparr>exitCode = 1, usageShown = False,
                            failed = Some (DirectoryNotFound absolutePath), scanned = None\<rparr>
                      else if \<not> isDirectory (nodeAt w absolutePath)
                      then \<lparr>exitCode = 1, usageShown = False, failed = Some NotADirectory,
                            scanned = None\<rparr>
                      else \<lparr>exitCode = 0, usageShown = False, failed = None,
                            scanned =
                              Some (scanDirectory js (opts\<lparr>baseDir := Some absolutePath\<rparr>)
                                      absolutePath 0 (nodeAt w absolutePath))\<rparr>))))"

section \<open>The statements of the specification\<close>

subsection \<open>Size filters\<close>

definition isDigits :: "string \<Rightarrow> bool" where
  "isDigits s = (s \<noteq> [] \<and> list_all isDigit s)"

definition isNumberLiteral :: "string \<Rightarrow> bool" where
  \<comment> \<open>a number as the size filter writes it: digits, then perhaps a dot and digits\<close>
  "isNumberLiteral s =
     (let ip = takeWhile (\<lambda>c. c \<noteq> CHR ''.'') s; r = dropWhile (\<lambda>c. c \<noteq> CHR ''.'') s
      in isDigits ip \<and> (r = [] \<or> isDigits (tl r)))"

definition isUnitSuffix :: "string \<Rightarrow> bool" where
  \<comment> \<open>no unit, or one of B, KB, MB, GB in any case\<close>
  "isUnitSuffix u = (u = [] \<or> toUpperCase u \<in> set [''B'', ''KB'', ''MB'', ''GB''])"

subsection \<open>Units of formatBytes\<close>

definition smallestUnit :: "rat \<Rightarrow> nat" where
  \<comment> \<open>the first of B, KB, MB in which the value is below 1024, GB when there is none\<close>
  "smallestUnit b = (case filter (\<lambda>k. b / 1024 ^ k < 1024) [0, 1, 2] of [] \<Rightarrow> 3 | k # _ \<Rightarrow> k)"

definition largestUnit :: "rat \<Rightarrow> nat" where
  \<comment> \<open>the last of B, KB, MB, GB in which the value is below 1024, GB when there is none\<close>
  "largestUnit b = (case filter (\<lambda>k. b / 1024 ^ k < 1024) [3, 2, 1, 0] of [] \<Rightarrow> 3 | k # _ \<Rightarrow> k)"

subsection \<open>Size buckets\<close>

definition bucketOf :: "nat \<Rightarrow> nat" where
  \<comment> \<open>the range a size falls in: 0 below 1 KB, 1 from 1 KB to below 1 MB, 2 from 1 MB to
      below 1 GB, 3 from 1 GB on\<close>
  "bucketOf sz =
     (if sz < 1024 then 0 else if sz < 1024 ^ 2 then 1 else if sz < 1024 ^ 3 then 2 else 3)"

subsection \<open>The files of a tree and the filter pipeline\<close>

type_synonym entry = "path \<times> string \<times> stats \<times> string option"
  \<comment> \<open>a regular file: its path, its name, its stat data, its content\<close>

text \<open>
  All regular files of a tree within the depth bound, in the order of the listings: the
  files of a directory at depth \<open>k\<close> count when \<open>k\<close> does not exceed the bound, the
  children of the root being at depth 0.
\<close>

fun regularFiles :: "number \<Rightarrow> path \<Rightarrow> nat \<Rightarrow> node \<Rightarrow> entry list"
  and regularFilesItems :: "number \<Rightarrow> path \<Rightarrow> nat \<Rightarrow> (string \<times> node) list \<Rightarrow> entry list"
where
  "regularFiles d dir k n =
     (if exceeds k d then []
      else (case n of Directory items \<Rightarrow> regularFilesItems d dir k items | _ \<Rightarrow> []))"
| "regularFilesItems d dir k [] = []"
| "regularFilesItems d dir k ((item, n) # rest) =
     (case n of
        RegularFile st content \<Rightarrow>
          (join dir item, item, st, content) # regularFilesItems d dir k rest
      | Directory items \<Rightarrow>
          regularFiles d (join dir item) (k + 1) n @ regularFilesItems d dir k rest
      | _ \<Rightarrow> regularFilesItems d dir k rest)"

declare regularFiles.simps [simp del]

fun statable :: "number \<Rightarrow> nat \<Rightarrow> node \<Rightarrow> bool"
  and statableItems :: "number \<Rightarrow> nat \<Rightarrow> (string \<times> node) list \<Rightarrow> bool"
where
  \<comment> \<open>every entry listed within the depth bound can be stat'ed\<close>
  "statable d k n =
     (if exceeds k d then True
      else (case n of Directory items \<Rightarrow> statableItems d k items | _ \<Rightarrow> True))"
| "statableItems d k [] = True"
| "statableItems d k ((item, n) # rest) =
     (n \<noteq> Missing \<and> statable d (k + 1) n \<and> statableItems d k rest)"

declare statable.simps [simp del]

definition passesFirstThree :: "language \<Rightarrow> options \<Rightarrow> entry \<Rightarrow> bool" where
  \<comment> \<open>the extension, name and size tests, each on its own\<close>
  "passesFirstThree js opts e =
     (case e of (itemPath, item, st, content) \<Rightarrow>
        matchesExtension js itemPath (extensions opts)
        \<and> matchesNamePattern (RegExp js) item (namePattern opts) = Some True
        \<and> matchesSizeFilter (stats.size' st) (sizeFilter opts))"

definition passesAll :: "language \<Rightarrow> options \<Rightarrow> entry \<Rightarrow> bool" where
  \<comment> \<open>the four tests, each on its own\<close>
  "passesAll js opts e =
     (case e of (itemPath, item, st, content) \<Rightarrow>
        matchesExtension js itemPath (extensions opts)
        \<and> matchesNamePattern (RegExp js) item (namePattern opts) = Some True
        \<and> matchesSizeFilter (stats.size' st) (sizeFilter opts)
        \<and> fst (containsSearchText js itemPath content (searchText opts)))"

definition filtersDisabled :: "options \<Rightarrow> bool" where
  "filtersDisabled opts =
     (extensions opts = [] \<and> namePattern opts = None \<and> sizeFilter opts = None
      \<and> searchText opts = None)"

definition searchActive :: "options \<Rightarrow> bool" where
  \<comment> \<open>\<^verbatim>\<open>searchText\<close> is set\<close>
  "searchActive opts = (case searchText opts of None \<Rightarrow> False | Some t \<Rightarrow> t \<noteq> [])"

definition infoOf :: "language \<Rightarrow> path \<Rightarrow> entry \<Rightarrow> fileInfo" where
  \<comment> \<open>the record of a file\<close>
  "infoOf js base e =
     (case e of (itemPath, item, st, content) \<Rightarrow> mkFileInfo js base item itemPath st)"

fun readsOf :: "event list \<Rightarrow> path list" where
  \<comment> \<open>the files whose content was read, in order\<close>
  "readsOf [] = []"
| "readsOf (ReadFile p # evs) = p # readsOf evs"
| "readsOf (Warning p # evs) = readsOf evs"

definition pathDepth :: "path \<Rightarrow> nat" where
  \<comment> \<open>the directory levels between the root and a file at this path relative to the
      root; 0 for a child of the root\<close>
  "pathDepth rel = length rel - 1"

definition knownFlags :: "string list" where
  \<comment> \<open>the options of the usage text\<close>
  "knownFlags = [''--depth'', ''--ext'', ''--name'', ''--size'', ''--search'', ''--tree'',
     ''--stats'', ''--json'', ''--csv'', ''--help'']"

subsection \<open>Sample inputs\<close>

definition isWhiteSpace :: "char \<Rightarrow> bool" where
  \<comment> \<open>the ASCII white space and line terminators\<close>
  "isWhiteSpace c = (c \<in> set [CHR '' '', CHR 0x09, CHR 0x0A, CHR 0x0B, CHR 0x0C, CHR 0x0D])"

definition asciiTrim :: "string \<Rightarrow> string" where
  \<comment> \<open>\<^verbatim>\<open>trim\<close> on strings of ASCII characters\<close>
  "asciiTrim s = rev (dropWhile isWhiteSpace (rev (dropWhile isWhiteSpace s)))"

definition decimalNumber :: "string \<Rightarrow> number" where
  \<comment> \<open>\<^verbatim>\<open>Number\<close> on \<^verbatim>\<open>Infinity\<close> and on the decimal literals without sign or exponent\<close>
  "decimalNumber s =
     (if s = ''Infinity'' then Infinity
      else (case matchNumber s of
              Some (lit, []) \<Rightarrow> Finite (Number_decimal lit)
            | _ \<Rightarrow> NaN))"

definition sampleLanguage :: language where
  \<comment> \<open>The language on the inputs of the examples below: ASCII text, decimal literals,
      expressions of the fragment \<open>RegExp_i\<close>, quotients that a double holds exactly.
      Outside of them it is not the language, and no theorem but an example uses it.\<close>
  "sampleLanguage =
     \<lparr>toLowerCase = asciiToLowerCase, trim = asciiTrim, Number = decimalNumber,
      RegExp = RegExp_i, numberDivide = (\<lambda>a b. of_nat a / of_nat b)\<rparr>"

definition sampleStats :: "nat \<Rightarrow> stats" where
  "sampleStats n = \<lparr>stats.size' = n, mtime = 0, birthtime = 0\<rparr>"

definition sampleTree :: node where
  \<comment> \<open>the tree of the end-to-end scenario of the specification\<close>
  "sampleTree =
     Directory
       [(''a.txt'', RegularFile (sampleStats 10) (Some ''plain text'')),
        (''b.log'', RegularFile (sampleStats 2048) (Some ''an ERROR line'')),
        (''c'', Directory [(''d.txt'', RegularFile (sampleStats 5) (Some ''12345''))])]"

definition deepTree :: node where
  \<comment> \<open>files at the depths 0, 1 and 2\<close>
  "deepTree =
     Directory
       [(''top.txt'', RegularFile (sampleStats 1) (Some ''t'')),
        (''c'', Directory
           [(''d.txt'', RegularFile (sampleStats 5) (Some ''12345'')),
            (''e'', Directory [(''f.txt'', RegularFile (sampleStats 6) (Some ''123456''))])])]"

definition danglingTree :: node where
  \<comment> \<open>a directory that lists an entry which cannot be stat'ed, then a regular file\<close>
  "danglingTree =
     Directory
       [(''gone'', Missing),
        (''late.txt'', RegularFile (sampleStats 7) (Some ''seven''))]"

definition lateOnlyTree :: node where
  \<comment> \<open>the same directory without the entry that cannot be stat'ed\<close>
  "lateOnlyTree = Directory [(''late.txt'', RegularFile (sampleStats 7) (Some ''seven''))]"

definition lockedTree :: node where
  \<comment> \<open>a file whose content cannot be read, between two that can\<close>
  "lockedTree =
     Directory
       [(''a.log'', RegularFile (sampleStats 4) (Some ''zeta'')),
        (''locked.log'', RegularFile (sampleStats 3) None),
        (''skip.txt'', RegularFile (sampleStats 2) None),
        (''z.log'', RegularFile (sampleStats 1) (Some ''Z''))]"

definition sampleOptions :: options where
  \<comment> \<open>\<^verbatim>\<open>root --depth 1 --ext .txt\<close>, with the base directory set\<close>
  "sampleOptions = defaults\<lparr>dirPath := Some ''root'', depth := Finite 1,
     extensions := [''.txt''], baseDir := Some [''root'']\<rparr>"

definition plainOptions :: options where
  \<comment> \<open>\<^verbatim>\<open>root\<close> alone, with the base directory set\<close>
  "plainOptions = defaults\<lparr>dirPath := Some ''root'', baseDir := Some [''root'']\<rparr>"

definition searchOptions :: options where
  \<comment> \<open>\<^verbatim>\<open>root --ext .log --search z\<close>, with the base directory set\<close>
  "searchOptions = defaults\<lparr>dirPath := Some ''root'', extensions := [''.log''],
     searchText := Some ''z'', baseDir := Some [''root'']\<rparr>"

definition sampleWorld :: world where
  \<comment> \<open>\<^verbatim>\<open>root\<close> is the sample tree, \<^verbatim>\<open>notes.txt\<close> a file, nothing else exists\<close>
  "sampleWorld =
     \<lparr>resolve = (\<lambda>d. [d]),
      nodeAt = (\<lambda>p. if p = [''root''] then sampleTree
                     else if p = [''notes.txt''] then RegularFile (sampleStats 4) (Some ''note'')
                     else Missing)\<rparr>"

section \<open>Size filters\<close>

lemmas string_defs = toUpperCase_def toUpperChar_def asciiToLowerCase_def asciiToLowerChar_def
  charTable_def isDigit_def

lemmas size_filter_defs = parseSizeFilter_def matchNumber_def matchUnit_def Number_decimal_def
  digitsValue_def digitValue_def multipliers_def

lemma parseSizeFilter_examples:
  "parseSizeFilter ''>1MB'' = Inr \<lparr>operator = ''>'', bytes = 1048576\<rparr>"
  "parseSizeFilter ''<=500'' = Inr \<lparr>operator = ''<='', bytes = 500\<rparr>"
  "parseSizeFilter ''bogus'' = Inl InvalidSizeFilterFormat"
  by (simp_all add: size_filter_defs string_defs)

text \<open>
  Claim C4. The parser of size filters accepts an operator among \<^verbatim>\<open>>\<close>, \<^verbatim>\<open><\<close>, \<^verbatim>\<open>=\<close>,
  \<^verbatim>\<open>>=\<close>, \<^verbatim>\<open><=\<close>, a number and a unit, and fails for any other string. The three
  examples of the claim hold (\<open>parseSizeFilter_examples\<close>), but the string \<^verbatim>\<open>==100\<close>, which
  is not of that form, is not rejected: the group \<^verbatim>\<open>[><=]=?\<close> of the regular expression
  takes \<^verbatim>\<open>==\<close> as an operator, which the error message of the parser and the usage text
  do not list.
\<close>

theorem parseSizeFilter_double_equals:
  "parseSizeFilter ''==100'' = Inr \<lparr>operator = ''=='', bytes = 100\<rparr>"
  by (simp add: size_filter_defs string_defs)

lemma digit_not_dot: "isDigit c \<Longrightarrow> c \<noteq> CHR ''.''"
  by (auto simp: isDigit_def)

lemma digit_upper: "isDigit c \<Longrightarrow> toUpperChar c = c"
proof -
  have "\<forall>d \<in> set ''0123456789''. toUpperChar d = d"
    by (simp add: toUpperChar_def charTable_def)
  then show "isDigit c \<Longrightarrow> toUpperChar c = c" unfolding isDigit_def by blast
qed

lemma digit_not_unit: "isDigit c \<Longrightarrow> c \<notin> {CHR ''B'', CHR ''K'', CHR ''M'', CHR ''G''}"
proof -
  have "\<forall>d \<in> set ''0123456789''. d \<notin> {CHR ''B'', CHR ''K'', CHR ''M'', CHR ''G''}"
    by simp
  then show "isDigit c \<Longrightarrow> c \<notin> {CHR ''B'', CHR ''K'', CHR ''M'', CHR ''G''}"
    unfolding isDigit_def by blast
qed

lemma unit_head:
  assumes u: "u \<noteq> []" and s: "isUnitSuffix u"
  shows "\<not> isDigit (hd u) \<and> hd u \<noteq> CHR ''.''"
proof -
  from u obtain c cs where ucs: "u = c # cs" by (cases u) auto
  from s ucs have up: "toUpperChar c \<in> {CHR ''B'', CHR ''K'', CHR ''M'', CHR ''G''}"
    by (auto simp: isUnitSuffix_def toUpperCase_def)
  have "\<not> isDigit c" using up digit_upper[of c] digit_not_unit[of c] by auto
  moreover have "toUpperChar (CHR ''.'') = CHR ''.''" by (simp add: toUpperChar_def charTable_def)
  then have "c \<noteq> CHR ''.''" using up by auto
  ultimately show ?thesis using ucs by simp
qed

lemma takeWhile_digits_then:
  "list_all isDigit ip \<Longrightarrow> (r = [] \<or> \<not> isDigit (hd r)) \<Longrightarrow>
     takeWhile isDigit (ip @ r) = ip \<and> dropWhile isDigit (ip @ r) = r"
proof (induction ip)
  case Nil
  then show ?case by (cases r) simp_all
next
  case (Cons a ip)
  from Cons.prems have a: "isDigit a" and ip: "list_all isDigit ip" by simp_all
  from Cons.IH[OF ip Cons.prems(2)] a show ?case by simp
qed

lemma matchNumber_integer:
  assumes "ip \<noteq> []" "list_all isDigit ip" "u = [] \<or> (\<not> isDigit (hd u) \<and> hd u \<noteq> CHR ''.'')"
  shows "matchNumber (ip @ u) = Some (ip, u)"
proof -
  have tw: "takeWhile isDigit (ip @ u) = ip" and dw: "dropWhile isDigit (ip @ u) = u"
    using takeWhile_digits_then[OF assms(2), of u] assms(3) by auto
  show ?thesis
    unfolding matchNumber_def Let_def tw dw using assms(1,3) by (cases u) auto
qed

lemma matchNumber_fraction:
  assumes "ip \<noteq> []" "list_all isDigit ip" "fp \<noteq> []" "list_all isDigit fp"
    "u = [] \<or> (\<not> isDigit (hd u) \<and> hd u \<noteq> CHR ''.'')"
  shows "matchNumber (ip @ CHR ''.'' # fp @ u) = Some (ip @ CHR ''.'' # fp, u)"
proof -
  have nd: "\<not> isDigit (CHR ''.'')" by (simp add: isDigit_def)
  have tw: "takeWhile isDigit (ip @ CHR ''.'' # fp @ u) = ip"
    and dw: "dropWhile isDigit (ip @ CHR ''.'' # fp @ u) = CHR ''.'' # fp @ u"
    using takeWhile_digits_then[OF assms(2), of "CHR ''.'' # fp @ u"] nd by auto
  have tw2: "takeWhile isDigit (fp @ u) = fp" and dw2: "dropWhile isDigit (fp @ u) = u"
    using takeWhile_digits_then[OF assms(4), of u] assms(5) by auto
  show ?thesis
    unfolding matchNumber_def Let_def tw dw using assms(1,3) tw2 dw2 by simp
qed

lemma matchNumber_literal:
  assumes n: "isNumberLiteral n" and u: "isUnitSuffix u"
  shows "matchNumber (n @ u) = Some (n, u)"
proof -
  define ip where "ip = takeWhile (\<lambda>c. c \<noteq> CHR ''.'') n"
  define r where "r = dropWhile (\<lambda>c. c \<noteq> CHR ''.'') n"
  have split: "n = ip @ r" by (simp add: ip_def r_def)
  from n have ip: "ip \<noteq> []" "list_all isDigit ip" and r: "r = [] \<or> isDigits (tl r)"
    by (simp_all add: isNumberLiteral_def Let_def ip_def r_def isDigits_def)
  have uh: "u = [] \<or> (\<not> isDigit (hd u) \<and> hd u \<noteq> CHR ''.'')"
    using unit_head[OF _ u] by blast
  show ?thesis
  proof (cases "r = []")
    case True
    then show ?thesis using matchNumber_integer[OF ip uh] split by simp
  next
    case False
    then have "hd r = CHR ''.''"
      using hd_dropWhile[of "\<lambda>c. c \<noteq> CHR ''.''" n] by (simp add: r_def)
    with False obtain fp where rfp: "r = CHR ''.'' # fp" by (cases r) auto
    with r have fp: "fp \<noteq> []" "list_all isDigit fp" by (simp_all add: isDigits_def)
    show ?thesis using matchNumber_fraction[OF ip fp uh] split rfp by simp
  qed
qed

text \<open>
  Claim C10. For every string \<^verbatim>\<open>==\<close> followed by a number and perhaps a unit, the parser
  succeeds with the operator \<^verbatim>\<open>==\<close>, and the size test under that filter holds for
  every file size: \<^verbatim>\<open>matchesSizeFilter\<close> has no case for it and answers \<^verbatim>\<open>true\<close> by
  default.
\<close>

theorem double_equals_passes_all:
  assumes "isNumberLiteral n" and "isUnitSuffix u"
  shows "\<exists>b. parseSizeFilter (''=='' @ n @ u) = Inr \<lparr>operator = ''=='', bytes = b\<rparr>
           \<and> (\<forall>fileSize. matchesSizeFilter fileSize (Some \<lparr>operator = ''=='', bytes = b\<rparr>))"
proof -
  have "matchUnit u \<noteq> None" using assms(2) by (auto simp: matchUnit_def isUnitSuffix_def)
  then obtain v where v: "matchUnit u = Some v" by auto
  have "matchOperator (''=='' @ n @ u) = Some (''=='', n @ u)" by simp
  then show ?thesis using matchNumber_literal[OF assms] v
    by (simp add: parseSizeFilter_def matchesSizeFilter_def Let_def)
qed

theorem double_equals_passes_all_witness:
  "isNumberLiteral ''100'' \<and> isUnitSuffix ''kb''
   \<and> parseSizeFilter ''==100kb'' = Inr \<lparr>operator = ''=='', bytes = 102400\<rparr>
   \<and> matchesSizeFilter 0 (Some \<lparr>operator = ''=='', bytes = 102400\<rparr>)
   \<and> matchesSizeFilter 102400 (Some \<lparr>operator = ''=='', bytes = 102400\<rparr>)
   \<and> matchesSizeFilter 999999 (Some \<lparr>operator = ''=='', bytes = 102400\<rparr>)"
proof -
  have h1: "isNumberLiteral ''100''" by (simp add: isNumberLiteral_def isDigits_def isDigit_def)
  have h2: "isUnitSuffix ''kb''" by (simp add: isUnitSuffix_def string_defs)
  have p: "parseSizeFilter ''==100kb'' = Inr \<lparr>operator = ''=='', bytes = 102400\<rparr>"
    by (simp add: size_filter_defs string_defs)
  from double_equals_passes_all[OF h1 h2] p
  have "\<forall>fileSize. matchesSizeFilter fileSize (Some \<lparr>operator = ''=='', bytes = 102400\<rparr>)"
    by simp
  with h1 h2 p show ?thesis by simp
qed

section \<open>Name patterns\<close>

lemma name_pattern_examples:
  "matchesNamePattern RegExp_i ''app.test.js'' (Some ''*.test.*'') = Some True"
  "matchesNamePattern RegExp_i ''app.js'' (Some ''*.test.*'') = Some False"
  "matchesNamePattern RegExp_i ''config.json'' (Some ''config.*'') = Some True"
  "matchesNamePattern rx f None = Some True"
  by (simp_all add: matchesNamePattern_def replaceChar_def RegExp_i_def atomOf_def syntaxCharacters_def atomMatches_def string_defs)


text \<open>
  Claim C3. The name pattern is said to be matched against the entire file name, with
  every metacharacter but \<^verbatim>\<open>*\<close> and \<^verbatim>\<open>?\<close> taken literally. The program escapes nothing and
  anchors nothing: \<^verbatim>\<open>app*\<close>, which its documentation gives for the files starting with
  \<^verbatim>\<open>app\<close>, becomes the expression \<^verbatim>\<open>app.*\<close> and is found inside \<^verbatim>\<open>myapp.js\<close>, and the dot
  of \<^verbatim>\<open>a.c\<close> matches the \<^verbatim>\<open>b\<close> of \<^verbatim>\<open>abc\<close>. The three examples of the claim hold
  (\<open>name_pattern_examples\<close>).
\<close>

theorem name_pattern_unanchored:
  "matchesNamePattern RegExp_i ''myapp.js'' (Some ''app*'') = Some True
   \<and> matchesNamePattern RegExp_i ''abc'' (Some ''a.c'') = Some True"
  by (simp add: matchesNamePattern_def replaceChar_def RegExp_i_def atomOf_def syntaxCharacters_def atomMatches_def string_defs)


section \<open>formatBytes\<close>

lemma floor_rat_numeral [simp]:
  "\<lfloor>(numeral a :: rat) / numeral b\<rfloor> = numeral a div numeral b"
  using floor_divide_of_int_eq[of "numeral a" "numeral b", where ?'a = rat] by simp

lemma floor_rat_one_numeral [simp]:
  "\<lfloor>(1 :: rat) / numeral b\<rfloor> = 1 div numeral b"
  using floor_divide_of_int_eq[of 1 "numeral b", where ?'a = rat] by simp

lemma formatLoop_stop: "s < 1024 \<or> 3 \<le> i \<Longrightarrow> formatLoop s i = (s, i)"
  by (subst formatLoop.simps) (auto simp: units_def)

lemma formatLoop_go: "1024 \<le> s \<Longrightarrow> i < 3 \<Longrightarrow> formatLoop s i = formatLoop (s / 1024) (Suc i)"
  by (subst formatLoop.simps) (simp add: units_def)

lemma formatLoop_smallestUnit:
  "formatLoop b 0 = (b / 1024 ^ smallestUnit b, smallestUnit b)"
proof -
  consider (B) "b < 1024" | (KB) "b \<ge> 1024" "b / 1024 < 1024"
    | (MB) "b \<ge> 1024" "b / 1024 \<ge> 1024" "b / 1024 / 1024 < 1024"
    | (GB) "b \<ge> 1024" "b / 1024 \<ge> 1024" "b / 1024 / 1024 \<ge> 1024"
    by linarith
  then show ?thesis
  proof cases
    case B
    have "formatLoop b 0 = (b, 0)" by (rule formatLoop_stop) (use B in simp)
    moreover have "smallestUnit b = 0" using B by (simp add: smallestUnit_def)
    ultimately show ?thesis by simp
  next
    case KB
    have "formatLoop b 0 = formatLoop (b / 1024) (Suc 0)"
      by (rule formatLoop_go) (use KB in simp_all)
    also have "\<dots> = (b / 1024, Suc 0)" by (rule formatLoop_stop) (use KB in simp)
    finally have "formatLoop b 0 = (b / 1024, Suc 0)" .
    moreover have "smallestUnit b = Suc 0" using KB by (simp add: smallestUnit_def)
    ultimately show ?thesis by simp
  next
    case MB
    have "formatLoop b 0 = formatLoop (b / 1024) (Suc 0)"
      by (rule formatLoop_go) (use MB in simp_all)
    also have "\<dots> = formatLoop (b / 1024 / 1024) (Suc (Suc 0))"
      by (rule formatLoop_go) (use MB in simp_all)
    also have "\<dots> = (b / 1024 / 1024, Suc (Suc 0))"
      by (rule formatLoop_stop) (use MB in simp)
    finally have "formatLoop b 0 = (b / 1024 / 1024, Suc (Suc 0))" .
    moreover have "smallestUnit b = Suc (Suc 0)" using MB by (simp add: smallestUnit_def)
    ultimately show ?thesis by simp
  next
    case GB
    have "formatLoop b 0 = formatLoop (b / 1024) (Suc 0)"
      by (rule formatLoop_go) (use GB in simp_all)
    also have "\<dots> = formatLoop (b / 1024 / 1024) (Suc (Suc 0))"
      by (rule formatLoop_go) (use GB in simp_all)
    also have "\<dots> = formatLoop (b / 1024 / 1024 / 1024) (Suc (Suc (Suc 0)))"
      by (rule formatLoop_go) (use GB in simp_all)
    also have "\<dots> = (b / 1024 / 1024 / 1024, Suc (Suc (Suc 0)))"
      by (rule formatLoop_stop) simp
    finally have "formatLoop b 0 = (b / 1024 / 1024 / 1024, Suc (Suc (Suc 0)))" .
    moreover have "smallestUnit b = 3" using GB by (simp add: smallestUnit_def)
    ultimately show ?thesis by (simp add: numeral_3_eq_3)
  qed
qed

lemma showNat_small: "n < 10 \<Longrightarrow> showNat n = [digitChar n]"
  by (subst showNat.simps) simp

lemma showNat_large: "10 \<le> n \<Longrightarrow> showNat n = showNat (n div 10) @ [digitChar (n mod 10)]"
  by (subst showNat.simps) simp

lemma digitChar_isDigit: "isDigit (digitChar d)"
proof -
  have "d mod 10 < length ''0123456789''" by simp
  then have "''0123456789'' ! (d mod 10) \<in> set ''0123456789''" by (rule nth_mem)
  then show ?thesis by (simp only: digitChar_def isDigit_def)
qed

lemma showNat_digits: "list_all isDigit (showNat n)"
proof (induction n rule: showNat.induct)
  case (1 n)
  show ?case
  proof (cases "n < 10")
    case True
    then show ?thesis by (simp add: showNat.simps[of n] digitChar_isDigit)
  next
    case False
    then show ?thesis using 1 by (simp add: showNat.simps[of n] digitChar_isDigit)
  qed
qed

lemma dot_not_digit: "\<not> isDigit (CHR ''.'')"
  by (simp add: isDigit_def)

lemma toFixed2_two_decimals:
  "length (dropWhile (\<lambda>c. c \<noteq> CHR ''.'') (toFixed2 x)) = 3"
proof -
  define n where "n = nat \<lfloor>\<bar>x\<bar> * 100 + 1 / 2\<rfloor>"
  define pre where "pre = (if x < 0 then ''-'' else []) @ showNat (n div 100)"
  have nodot: "\<forall>c \<in> set pre. c \<noteq> CHR ''.''"
    using showNat_digits[of "n div 100"] dot_not_digit
    by (auto simp: pre_def list_all_iff)
  have "toFixed2 x = pre @ CHR ''.'' # [digitChar (n div 10 mod 10), digitChar (n mod 10)]"
    by (simp add: toFixed2_def Let_def n_def pre_def)
  then show ?thesis using nodot by (simp add: dropWhile_append2)
qed

lemma formatBytes_examples:
  "formatBytes 0 = ''0.00 B''" "formatBytes 1024 = ''1.00 KB''" "formatBytes 1536 = ''1.50 KB''"
  by (simp_all add: formatBytes_def formatLoop_smallestUnit smallestUnit_def toFixed2_def Let_def
        showNat_small showNat_large digitChar_def units_def)

text \<open>
  Claim C7, as stated: the unit is the largest of B, KB, MB and GB in which the value is
  below 1024. That unit is GB for every count below 1024 GB, since dividing only makes
  the value smaller; 500 bytes are printed in B.
\<close>

theorem formatBytes_largest_unit_counterexample:
  "formatBytes 500 = ''500.00 B'' \<and> largestUnit 500 = 3 \<and> units ! largestUnit 500 = ''GB''
   \<and> formatBytes 500 \<noteq> toFixed2 (500 / 1024 ^ largestUnit 500) @ '' '' @ units ! largestUnit 500"
  by (simp add: formatBytes_def formatLoop_smallestUnit smallestUnit_def largestUnit_def toFixed2_def
        Let_def showNat_small showNat_large digitChar_def units_def)

text \<open>
  Claim C7, amended. \<open>formatBytes\<close> prints a byte count in the smallest of B, KB, MB and GB
  in which the value is below 1024, in GB when there is none; the number is printed by
  \<^verbatim>\<open>toFixed(2)\<close>, with exactly two characters after the decimal point. So 0 is \<^verbatim>\<open>0.00 B\<close>,
  1024 is \<^verbatim>\<open>1.00 KB\<close> and 1536 is \<^verbatim>\<open>1.50 KB\<close>.
\<close>

theorem formatBytes_smallest_unit:
  "formatBytes b = toFixed2 (b / 1024 ^ smallestUnit b) @ '' '' @ units ! smallestUnit b
   \<and> length (dropWhile (\<lambda>c. c \<noteq> CHR ''.'') (toFixed2 (b / 1024 ^ smallestUnit b))) = 3
   \<and> formatBytes 0 = ''0.00 B'' \<and> formatBytes 1024 = ''1.00 KB''
   \<and> formatBytes 1536 = ''1.50 KB''"
proof -
  have "formatBytes b = toFixed2 (b / 1024 ^ smallestUnit b) @ '' '' @ units ! smallestUnit b"
    by (simp add: formatBytes_def formatLoop_smallestUnit)
  then show ?thesis
    using toFixed2_two_decimals[of "b / 1024 ^ smallestUnit b"] formatBytes_examples by blast
qed

section \<open>Statistics\<close>

lemma increment_sum: "sum_list (map snd (increment k acc)) = Suc (sum_list (map snd acc))"
  by (induction acc) auto

lemma histogram_sum:
  "sum_list (map snd (foldl (\<lambda>acc file. increment (extensionKey file) acc) acc files))
     = sum_list (map snd acc) + length files"
  by (induction files arbitrary: acc) (simp_all add: increment_sum)

lemma insort_key_sum:
  "sum_list (map g (insort_key f x xs)) = (g x :: nat) + sum_list (map g xs)"
  by (induction xs) auto

lemma sort_key_sum: "sum_list (map g (sort_key f xs)) = (sum_list (map g xs) :: nat)"
  by (induction xs) (simp_all add: insort_key_sum)

lemma increment_lookup:
  "map_of (increment k acc) k' =
     (if k' = k then Some (case map_of acc k of None \<Rightarrow> 1 | Some c \<Rightarrow> c + 1) else map_of acc k')"
  by (induction acc) auto

lemma histogram_lookup:
  "map_of (foldl (\<lambda>acc file. increment (extensionKey file) acc) acc files) k =
     (let c = length (filter (\<lambda>f. extensionKey f = k) files) in
      case map_of acc k of None \<Rightarrow> (if c = 0 then None else Some c) | Some m \<Rightarrow> Some (m + c))"
  by (induction files arbitrary: acc) (auto simp: increment_lookup Let_def split: option.splits)

lemma bucket_filters:
  "(\<lambda>f. fileInfo.size' f < 1024) = (\<lambda>f. bucketOf (fileInfo.size' f) = 0)"
  "(\<lambda>f. fileInfo.size' f \<ge> 1024 \<and> fileInfo.size' f < 1024 * 1024)
     = (\<lambda>f. bucketOf (fileInfo.size' f) = 1)"
  "(\<lambda>f. fileInfo.size' f \<ge> 1024 * 1024 \<and> fileInfo.size' f < 1024 * 1024 * 1024)
     = (\<lambda>f. bucketOf (fileInfo.size' f) = 2)"
  "(\<lambda>f. fileInfo.size' f \<ge> 1024 * 1024 * 1024) = (\<lambda>f. bucketOf (fileInfo.size' f) = 3)"
  by (auto simp: bucketOf_def fun_eq_iff)

lemma buckets_partition:
  "length (filter (\<lambda>f. bucketOf (fileInfo.size' f) = 0) files)
   + length (filter (\<lambda>f. bucketOf (fileInfo.size' f) = 1) files)
   + length (filter (\<lambda>f. bucketOf (fileInfo.size' f) = 2) files)
   + length (filter (\<lambda>f. bucketOf (fileInfo.size' f) = 3) files) = length files"
  by (induction files) (auto simp: bucketOf_def)

text \<open>
  Claim C8. For every collection of matched records, the four size buckets of the
  statistics count the files below 1 KB, from 1 KB to below 1 MB, from 1 MB to below
  1 GB, and of 1 GB and more; every size falls in exactly one of these ranges, and the
  four counts add up to the number of files. So do the counts of the extension
  histogram, before and after they are sorted for printing. The histogram counts under
  each key the files of that key, and the key of a file without an extension is
  \<^verbatim>\<open>(no extension)\<close>.
\<close>

theorem statistics_consistent:
  "small (distribution (displayStats js files))
     = length (filter (\<lambda>f. bucketOf (fileInfo.size' f) = 0) files)
   \<and> medium (distribution (displayStats js files))
     = length (filter (\<lambda>f. bucketOf (fileInfo.size' f) = 1) files)
   \<and> large (distribution (displayStats js files))
     = length (filter (\<lambda>f. bucketOf (fileInfo.size' f) = 2) files)
   \<and> huge (distribution (displayStats js files))
     = length (filter (\<lambda>f. bucketOf (fileInfo.size' f) = 3) files)
   \<and> small (distribution (displayStats js files)) + medium (distribution (displayStats js files))
     + large (distribution (displayStats js files)) + huge (distribution (displayStats js files))
     = totalFiles (displayStats js files)
   \<and> sum_list (map snd (extensionCounts (displayStats js files))) = totalFiles (displayStats js files)
   \<and> sum_list (map snd (extensionLines (displayStats js files))) = totalFiles (displayStats js files)
   \<and> totalFiles (displayStats js files) = length files
   \<and> map_of (extensionCounts (displayStats js files)) k
       = (let c = length (filter (\<lambda>f. extensionKey f = k) files)
          in if c = 0 then None else Some c)
   \<and> extensionKey (f\<lparr>extension := []\<rparr>) = ''(no extension)''"
proof -
  have s: "small (distribution (displayStats js files))
     = length (filter (\<lambda>f. bucketOf (fileInfo.size' f) = 0) files)"
    by (simp only: displayStats_def Let_def bucket_filters(1) statistics.simps
          sizeDistribution.simps)
  have m: "medium (distribution (displayStats js files))
     = length (filter (\<lambda>f. bucketOf (fileInfo.size' f) = 1) files)"
    by (simp only: displayStats_def Let_def bucket_filters(2) statistics.simps
          sizeDistribution.simps)
  have l: "large (distribution (displayStats js files))
     = length (filter (\<lambda>f. bucketOf (fileInfo.size' f) = 2) files)"
    by (simp only: displayStats_def Let_def bucket_filters(3) statistics.simps
          sizeDistribution.simps)
  have h: "huge (distribution (displayStats js files))
     = length (filter (\<lambda>f. bucketOf (fileInfo.size' f) = 3) files)"
    by (simp only: displayStats_def Let_def bucket_filters(4) statistics.simps
          sizeDistribution.simps)
  have total: "totalFiles (displayStats js files) = length files"
    by (simp add: displayStats_def Let_def)
  have buckets:
    "small (distribution (displayStats js files)) + medium (distribution (displayStats js files))
     + large (distribution (displayStats js files)) + huge (distribution (displayStats js files))
     = totalFiles (displayStats js files)"
    unfolding s m l h total by (rule buckets_partition)
  have counts:
    "sum_list (map snd (extensionCounts (displayStats js files))) = totalFiles (displayStats js files)"
    by (simp add: displayStats_def Let_def histogram_sum)
  have lines:
    "sum_list (map snd (extensionLines (displayStats js files))) = totalFiles (displayStats js files)"
    by (simp add: displayStats_def Let_def histogram_sum sort_key_sum)
  have bucket:
    "map_of (extensionCounts (displayStats js files)) k
       = (let c = length (filter (\<lambda>f. extensionKey f = k) files)
          in if c = 0 then None else Some c)"
    by (simp add: displayStats_def Let_def histogram_lookup)
  have key: "extensionKey (f\<lparr>extension := []\<rparr>) = ''(no extension)''"
    by (simp add: extensionKey_def)
  from s m l h buckets counts lines total bucket key show ?thesis by blast
qed

section \<open>The traversal\<close>

lemma scanItems_Missing [simp]:
  "scanItems js opts dir k ((item, Missing) # rest) = (([], []), True)"
  by simp

lemma scanItems_Special [simp]:
  "scanItems js opts dir k ((item, Special) # rest) = scanItems js opts dir k rest"
  by simp

lemma scanItems_RegularFile:
  "scanItems js opts dir k ((item, RegularFile st content) # rest) =
     (case baseDir opts of
        None \<Rightarrow> (([], []), True)
      | Some base \<Rightarrow>
          (case applyFilters js opts (join dir item) item st content of
             (None, evs) \<Rightarrow> (([], evs), True)
           | (Some pass, evs) \<Rightarrow>
               (case scanItems js opts dir k rest of
                  ((results, evs'), threw) \<Rightarrow>
                    (((if pass then [mkFileInfo js base item (join dir item) st] else []) @ results,
                      evs @ evs'), threw))))"
  by simp

lemma scanItems_Directory:
  "n = Directory xs \<or> n = UnreadableDirectory \<Longrightarrow>
   scanItems js opts dir k ((item, n) # rest) =
     (case scanDirectory js opts (join dir item) (k + 1) n of
        (subResults, evs) \<Rightarrow>
          (case scanItems js opts dir k rest of
             ((results, evs'), threw) \<Rightarrow> ((subResults @ results, evs @ evs'), threw)))"
  by auto

lemma scanItems_dir_step:
  assumes "n = Directory xs \<or> n = UnreadableDirectory"
  shows "fst (fst (scanItems js opts dir k ((item, n) # rest)))
           = fst (scanDirectory js opts (join dir item) (k + 1) n)
             @ fst (fst (scanItems js opts dir k rest))"
    and "snd (fst (scanItems js opts dir k ((item, n) # rest)))
           = snd (scanDirectory js opts (join dir item) (k + 1) n)
             @ snd (fst (scanItems js opts dir k rest))"
    and "snd (scanItems js opts dir k ((item, n) # rest)) = snd (scanItems js opts dir k rest)"
  unfolding scanItems_Directory[OF assms] by (simp_all split: prod.splits)

lemma scanDirectory_exceeds [simp]:
  "exceeds k (depth opts) \<Longrightarrow> scanDirectory js opts dir k n = ([], [])"
  by (simp add: scanDirectory.simps)

lemma scanDirectory_Directory:
  "\<not> exceeds k (depth opts) \<Longrightarrow>
   scanDirectory js opts dir k (Directory items) =
     (fst (fst (scanItems js opts dir k items)),
      if snd (scanItems js opts dir k items)
      then snd (fst (scanItems js opts dir k items)) @ [Warning dir]
      else snd (fst (scanItems js opts dir k items)))"
  by (simp add: scanDirectory.simps split: prod.splits)

lemma scanDirectory_other:
  "\<not> exceeds k (depth opts) \<Longrightarrow> \<forall>items. n \<noteq> Directory items \<Longrightarrow>
   scanDirectory js opts dir k n = ([], [Warning dir])"
  by (cases n) (simp_all add: scanDirectory.simps)

lemma scanDirectory_no_listing:
  "\<forall>items. n \<noteq> Directory items \<Longrightarrow>
   fst (scanDirectory js opts dir k n) = [] \<and> readsOf (snd (scanDirectory js opts dir k n)) = []"
  by (cases "exceeds k (depth opts)") (simp_all add: scanDirectory_other)

lemma regularFiles_exceeds [simp]: "exceeds k d \<Longrightarrow> regularFiles d dir k n = []"
  by (simp add: regularFiles.simps)

lemma regularFiles_Directory:
  "\<not> exceeds k d \<Longrightarrow>
   regularFiles d dir k (Directory items) = regularFilesItems d dir k items"
  by (simp add: regularFiles.simps)




lemma applyFilters_Some:
  "applyFilters js opts itemPath item st content = (Some b, evs) \<Longrightarrow>
     b = passesAll js opts (itemPath, item, st, content)
     \<and> readsOf evs = (if passesFirstThree js opts (itemPath, item, st, content) \<and> searchActive opts
                       then [itemPath] else [])"
  by (auto simp: applyFilters_def passesAll_def passesFirstThree_def searchActive_def
        containsSearchText_def split: if_splits option.splits bool.splits)

lemma applyFilters_None:
  "applyFilters js opts itemPath item st content = (None, evs) \<Longrightarrow>
     evs = [] \<and> matchesNamePattern (RegExp js) item (namePattern opts) = None"
  by (auto simp: applyFilters_def containsSearchText_def split: if_splits option.splits bool.splits)


lemma readsOf_append [simp]: "readsOf (xs @ ys) = readsOf xs @ readsOf ys"
  by (induction xs rule: readsOf.induct) auto

lemma infoOf_entry [simp]:
  "infoOf js base (itemPath, item, st, content) = mkFileInfo js base item itemPath st"
  by (simp add: infoOf_def)


lemma scan_reads:
  "p \<in> set (readsOf (snd (scanDirectory js opts dir k n))) \<Longrightarrow>
     \<exists>e \<in> set (regularFiles (depth opts) dir k n).
        fst e = p \<and> passesFirstThree js opts e \<and> searchActive opts"
  "p \<in> set (readsOf (snd (fst (scanItems js opts dir k items)))) \<Longrightarrow>
     \<exists>e \<in> set (regularFilesItems (depth opts) dir k items).
        fst e = p \<and> passesFirstThree js opts e \<and> searchActive opts"
proof (induction js opts dir k n and js opts dir k items rule: scanDirectory_scanItems.induct)
  case (1 js opts dir currentDepth n)
  show ?case
  proof (cases "exceeds currentDepth (depth opts)")
    case True
    with "1.prems" show ?thesis by simp
  next
    case False
    show ?thesis
    proof (cases "\<exists>xs. n = Directory xs")
      case True
      then obtain xs where Directory: "n = Directory xs" by auto
      from "1.prems" False Directory
      have "p \<in> set (readsOf (snd (fst (scanItems js opts dir currentDepth xs))))"
        by (simp add: scanDirectory_Directory split: if_splits)
      from "1.IH"[OF False Directory this] False Directory
      show ?thesis by (simp add: regularFiles_Directory)
    next
      case False
      then have "\<forall>items. n \<noteq> Directory items" by auto
      with "1.prems" show ?thesis by (simp add: scanDirectory_no_listing)
    qed
  qed
next
  case (2 js opts dir currentDepth)
  then show ?case by simp
next
  case (3 js opts dir currentDepth item n rest)
  show ?case
  proof (cases n)
    case (RegularFile st content)
    show ?thesis
    proof (cases "baseDir opts")
      case None
      with "3.prems" RegularFile show ?thesis
        by (simp add: scanItems_RegularFile del: scanItems.simps)
    next
      case (Some base)
      obtain r evs where af: "applyFilters js opts (join dir item) item st content = (r, evs)"
        by (cases "applyFilters js opts (join dir item) item st content") auto
      show ?thesis
      proof (cases r)
        case None
        from applyFilters_None[OF af[unfolded None]] have "evs = []" by simp
        with "3.prems" RegularFile Some af None show ?thesis
          by (simp add: scanItems_RegularFile del: scanItems.simps)
      next
        case (Some pass)
        note sp = this
        from applyFilters_Some[OF af[unfolded sp]]
        have rd: "readsOf evs = (if passesFirstThree js opts (join dir item, item, st, content)
                                  \<and> searchActive opts then [join dir item] else [])"
          by simp
        obtain res evs' threw where si:
          "scanItems js opts dir currentDepth rest = ((res, evs'), threw)"
          by (cases "scanItems js opts dir currentDepth rest") auto
        from "3.prems" RegularFile \<open>baseDir opts = Some base\<close> af sp si
        have "p \<in> set (readsOf evs) \<or> p \<in> set (readsOf evs')"
          by (simp add: scanItems_RegularFile del: scanItems.simps)
        then show ?thesis
        proof
          assume "p \<in> set (readsOf evs)"
          with rd have "p = join dir item"
            and "passesFirstThree js opts (join dir item, item, st, content)"
            and "searchActive opts"
            by (auto split: if_splits)
          then show ?thesis using RegularFile by auto
        next
          assume "p \<in> set (readsOf evs')"
          then have "p \<in> set (readsOf (snd (fst (scanItems js opts dir currentDepth rest))))"
            using si by simp
          from "3.IH"(1)[OF RegularFile \<open>baseDir opts = Some base\<close> _ sp this] af
          show ?thesis using RegularFile by auto
        qed
      qed
    qed
  next
    case (Directory xs)
    then have d: "n = Directory xs \<or> n = UnreadableDirectory" by simp
    from "3.prems"
    consider "p \<in> set (readsOf (snd (scanDirectory js opts (join dir item) (currentDepth + 1) n)))"
      | "p \<in> set (readsOf (snd (fst (scanItems js opts dir currentDepth rest))))"
      unfolding scanItems_dir_step[OF d] by auto
    then show ?thesis
    proof cases
      case 1
      from "3.IH"(2)[OF Directory 1] show ?thesis using Directory by auto
    next
      case 2
      from "3.IH"(3)[OF Directory prod.collapse 2] show ?thesis using Directory by auto
    qed
  next
    case UnreadableDirectory
    then have d: "n = Directory [] \<or> n = UnreadableDirectory" by simp
    have "readsOf (snd (scanDirectory js opts (join dir item) (currentDepth + 1) n)) = []"
      using UnreadableDirectory by (simp add: scanDirectory_no_listing)
    with "3.prems" have "p \<in> set (readsOf (snd (fst (scanItems js opts dir currentDepth rest))))"
      unfolding scanItems_dir_step[OF d] by simp
    from "3.IH"(5)[OF UnreadableDirectory prod.collapse this] show ?thesis
      using UnreadableDirectory by auto
  next
    case Special
    with "3.prems" "3.IH"(6)[OF Special] show ?thesis by auto
  next
    case Missing
    with "3.prems" show ?thesis by simp
  qed
qed

lemma scan_paths:
  "f \<in> set (fst (scanDirectory js opts dir k n)) \<Longrightarrow>
     \<exists>rel. path f = dir @ rel \<and> rel \<noteq> [] \<and> \<not> exceeds (k + length rel - 1) (depth opts)
        \<and> baseDir opts = Some (the (baseDir opts))
        \<and> relativePath f = relative (the (baseDir opts)) (dir @ rel)"
  "\<not> exceeds k (depth opts) \<Longrightarrow> f \<in> set (fst (fst (scanItems js opts dir k items))) \<Longrightarrow>
     \<exists>rel. path f = dir @ rel \<and> rel \<noteq> [] \<and> \<not> exceeds (k + length rel - 1) (depth opts)
        \<and> baseDir opts = Some (the (baseDir opts))
        \<and> relativePath f = relative (the (baseDir opts)) (dir @ rel)"
proof (induction js opts dir k n and js opts dir k items rule: scanDirectory_scanItems.induct)
  case (1 js opts dir currentDepth n)
  show ?case
  proof (cases "exceeds currentDepth (depth opts)")
    case True
    with "1.prems" show ?thesis by simp
  next
    case False
    show ?thesis
    proof (cases "\<exists>xs. n = Directory xs")
      case True
      then obtain xs where Directory: "n = Directory xs" by auto
      from "1.prems" False Directory
      have "f \<in> set (fst (fst (scanItems js opts dir currentDepth xs)))"
        by (simp add: scanDirectory_Directory)
      from "1.IH"[OF False Directory False this] show ?thesis .
    next
      case False
      then have "\<forall>items. n \<noteq> Directory items" by auto
      with "1.prems" show ?thesis by (simp add: scanDirectory_no_listing)
    qed
  qed
next
  case (2 js opts dir currentDepth)
  then show ?case by simp
next
  case (3 js opts dir currentDepth item n rest)
  note ne = "3.prems"(1)
  show ?case
  proof (cases n)
    case (RegularFile st content)
    show ?thesis
    proof (cases "baseDir opts")
      case None
      with "3.prems" RegularFile show ?thesis
        by (simp add: scanItems_RegularFile del: scanItems.simps)
    next
      case (Some base)
      note sb = this
      obtain r evs where af: "applyFilters js opts (join dir item) item st content = (r, evs)"
        by (cases "applyFilters js opts (join dir item) item st content") auto
      show ?thesis
      proof (cases r)
        case None
        with "3.prems" RegularFile sb af show ?thesis
          by (simp add: scanItems_RegularFile del: scanItems.simps)
      next
        case (Some pass)
        note sp = this
        obtain res evs' threw where si:
          "scanItems js opts dir currentDepth rest = ((res, evs'), threw)"
          by (cases "scanItems js opts dir currentDepth rest") auto
        from "3.prems"(2) RegularFile sb af sp si
        have "f = mkFileInfo js base item (join dir item) st \<or> f \<in> set res"
          by (auto simp add: scanItems_RegularFile split: if_splits simp del: scanItems.simps)
        then show ?thesis
        proof
          assume "f = mkFileInfo js base item (join dir item) st"
          then have "path f = dir @ [item]"
            and "relativePath f = relative base (dir @ [item])"
            by (simp_all add: mkFileInfo_def join_def)
          then show ?thesis using ne sb by (intro exI[of _ "[item]"]) simp
        next
          assume "f \<in> set res"
          then have "f \<in> set (fst (fst (scanItems js opts dir currentDepth rest)))"
            using si by simp
          from "3.IH"(1)[OF RegularFile sb _ sp ne this] af show ?thesis by simp
        qed
      qed
    qed
  next
    case (Directory xs)
    then have d: "n = Directory xs \<or> n = UnreadableDirectory" by simp
    from "3.prems"(2)
    consider "f \<in> set (fst (scanDirectory js opts (join dir item) (currentDepth + 1) n))"
      | "f \<in> set (fst (fst (scanItems js opts dir currentDepth rest)))"
      unfolding scanItems_dir_step[OF d] by auto
    then show ?thesis
    proof cases
      case 1
      from "3.IH"(2)[OF Directory 1] obtain rel where
        r: "path f = join dir item @ rel" "rel \<noteq> []"
           "\<not> exceeds (currentDepth + 1 + length rel - 1) (depth opts)"
           "baseDir opts = Some (the (baseDir opts))"
           "relativePath f = relative (the (baseDir opts)) (join dir item @ rel)"
        by auto
      show ?thesis using r by (intro exI[of _ "item # rel"]) (simp add: join_def)
    next
      case 2
      from "3.IH"(3)[OF Directory prod.collapse ne 2] show ?thesis .
    qed
  next
    case UnreadableDirectory
    then have d: "n = Directory [] \<or> n = UnreadableDirectory" by simp
    have "fst (scanDirectory js opts (join dir item) (currentDepth + 1) n) = []"
      using UnreadableDirectory by (simp add: scanDirectory_no_listing)
    with "3.prems"(2) have "f \<in> set (fst (fst (scanItems js opts dir currentDepth rest)))"
      unfolding scanItems_dir_step[OF d] by simp
    from "3.IH"(5)[OF UnreadableDirectory prod.collapse ne this] show ?thesis .
  next
    case Special
    with "3.prems" "3.IH"(6)[OF Special] show ?thesis by auto
  next
    case Missing
    with "3.prems" show ?thesis by simp
  qed
qed

lemma relative_append [simp]: "relative base (base @ rel) = rel"
  by (induction base) auto


lemma scanItems_stat_failure:
  "scanItems js opts dir k (before @ (item, Missing) # after)
     = (fst (scanItems js opts dir k before), True)"
proof (induction before)
  case Nil
  show ?case by simp
next
  case (Cons x before)
  obtain i n where x: "x = (i, n)" by (cases x) auto
  show ?case
  proof (cases n)
    case (RegularFile st content)
    show ?thesis using Cons
      by (simp add: x RegularFile scanItems_RegularFile split: option.splits prod.splits
            del: scanItems.simps)
  next
    case (Directory xs)
    then have d: "n = Directory xs \<or> n = UnreadableDirectory" by simp
    show ?thesis using Cons
      by (simp add: x scanItems_Directory[OF d] split: prod.splits del: scanItems.simps)
  next
    case UnreadableDirectory
    then have d: "n = Directory [] \<or> n = UnreadableDirectory" by simp
    show ?thesis using Cons
      by (simp add: x scanItems_Directory[OF d] split: prod.splits del: scanItems.simps)
  next
    case Special
    then show ?thesis using Cons by (simp add: x)
  next
    case Missing
    then show ?thesis by (simp add: x)
  qed
qed

lemmas scan_eval = scanDirectory.simps regularFiles.simps statable.simps sampleLanguage_def
  sampleOptions_def plainOptions_def searchOptions_def defaults_def sampleTree_def deepTree_def
  danglingTree_def lateOnlyTree_def lockedTree_def sampleStats_def exceeds_def applyFilters_def
  matchesExtension_def extname_def extname_base_def basename_def join_def matchesNamePattern_def
  matchesSizeFilter_def containsSearchText_def passesAll_def passesFirstThree_def
  searchActive_def filtersDisabled_def




text \<open>
  Claim C6. A stat failure on one entry of a directory is said to skip that entry only,
  the remaining entries of the directory being examined still. In the code the call of
  \<^verbatim>\<open>fs.statSync\<close> lies inside the \<^verbatim>\<open>try\<close> block that wraps the whole \<^verbatim>\<open>for\<close> loop over the
  entries: the failure ends the loop, what was pushed before it is kept, the entries listed
  after it are not examined, and the \<^verbatim>\<open>catch\<close> reports the directory with
  \<^verbatim>\<open>Cannot read directory\<close>. On \<open>danglingTree\<close>, which lists an entry that cannot be
  stat'ed and then \<^verbatim>\<open>late.txt\<close>, the scan returns no record and one warning; the same
  directory without that entry gives \<^verbatim>\<open>late.txt\<close>.
\<close>

theorem stat_failure_ends_directory:
  "scanItems js opts dir k (before @ (item, Missing) # after)
     = (fst (scanItems js opts dir k before), True)
   \<and> scanDirectory sampleLanguage plainOptions [''root''] 0 danglingTree
       = ([], [Warning [''root'']])
   \<and> map name (fst (scanDirectory sampleLanguage plainOptions [''root''] 0 lateOnlyTree))
       = [''late.txt'']"
proof -
  have a: "scanDirectory sampleLanguage plainOptions [''root''] 0 danglingTree
       = ([], [Warning [''root'']])"
    by (simp add: scan_eval)
  have b: "map name (fst (scanDirectory sampleLanguage plainOptions [''root''] 0 lateOnlyTree))
       = [''late.txt'']"
    by (simp add: scan_eval mkFileInfo_def)
  from scanItems_stat_failure a b show ?thesis by blast
qed

lemma scan_sound:
  "f \<in> set (fst (scanDirectory js opts dir k n)) \<Longrightarrow>
     \<exists>e \<in> set (regularFiles (depth opts) dir k n).
        (\<exists>base. baseDir opts = Some base \<and> f = infoOf js base e) \<and> passesAll js opts e"
  "f \<in> set (fst (fst (scanItems js opts dir k items))) \<Longrightarrow>
     \<exists>e \<in> set (regularFilesItems (depth opts) dir k items).
        (\<exists>base. baseDir opts = Some base \<and> f = infoOf js base e) \<and> passesAll js opts e"
proof (induction js opts dir k n and js opts dir k items rule: scanDirectory_scanItems.induct)
  case (1 js opts dir currentDepth n)
  show ?case
  proof (cases "exceeds currentDepth (depth opts)")
    case True
    with "1.prems" show ?thesis by simp
  next
    case False
    show ?thesis
    proof (cases "\<exists>xs. n = Directory xs")
      case True
      then obtain xs where Directory: "n = Directory xs" by auto
      from "1.prems" False Directory
      have "f \<in> set (fst (fst (scanItems js opts dir currentDepth xs)))"
        by (simp add: scanDirectory_Directory)
      from "1.IH"[OF False Directory this] False Directory
      show ?thesis by (simp add: regularFiles_Directory)
    next
      case False
      then have "\<forall>items. n \<noteq> Directory items" by auto
      with "1.prems" show ?thesis by (simp add: scanDirectory_no_listing)
    qed
  qed
next
  case (2 js opts dir currentDepth)
  then show ?case by simp
next
  case (3 js opts dir currentDepth item n rest)
  show ?case
  proof (cases n)
    case (RegularFile st content)
    show ?thesis
    proof (cases "baseDir opts")
      case None
      with "3.prems" RegularFile show ?thesis
        by (simp add: scanItems_RegularFile del: scanItems.simps)
    next
      case (Some base)
      note sb = this
      obtain r evs where af: "applyFilters js opts (join dir item) item st content = (r, evs)"
        by (cases "applyFilters js opts (join dir item) item st content") auto
      show ?thesis
      proof (cases r)
        case None
        with "3.prems" RegularFile sb af show ?thesis
          by (simp add: scanItems_RegularFile del: scanItems.simps)
      next
        case (Some pass)
        note sp = this
        from applyFilters_Some[OF af[unfolded sp]]
        have pa: "pass = passesAll js opts (join dir item, item, st, content)" by simp
        obtain res evs' threw where si:
          "scanItems js opts dir currentDepth rest = ((res, evs'), threw)"
          by (cases "scanItems js opts dir currentDepth rest") auto
        from "3.prems" RegularFile sb af sp si
        have "(pass \<and> f = mkFileInfo js base item (join dir item) st) \<or> f \<in> set res"
          by (auto simp add: scanItems_RegularFile simp del: scanItems.simps split: if_splits)
        then show ?thesis
        proof
          assume "pass \<and> f = mkFileInfo js base item (join dir item) st"
          with pa sb have "baseDir opts = Some base
              \<and> f = infoOf js base (join dir item, item, st, content)
              \<and> passesAll js opts (join dir item, item, st, content)"
            by simp
          then show ?thesis using RegularFile by auto
        next
          assume "f \<in> set res"
          then have "f \<in> set (fst (fst (scanItems js opts dir currentDepth rest)))"
            using si by simp
          from "3.IH"(1)[OF RegularFile sb _ sp this] af
          show ?thesis using RegularFile by auto
        qed
      qed
    qed
  next
    case (Directory xs)
    then have d: "n = Directory xs \<or> n = UnreadableDirectory" by simp
    from "3.prems"
    consider "f \<in> set (fst (scanDirectory js opts (join dir item) (currentDepth + 1) n))"
      | "f \<in> set (fst (fst (scanItems js opts dir currentDepth rest)))"
      unfolding scanItems_dir_step[OF d] by auto
    then show ?thesis
    proof cases
      case 1
      from "3.IH"(2)[OF Directory 1] show ?thesis using Directory by auto
    next
      case 2
      from "3.IH"(3)[OF Directory prod.collapse 2] show ?thesis using Directory by auto
    qed
  next
    case UnreadableDirectory
    then have d: "n = Directory [] \<or> n = UnreadableDirectory" by simp
    have "fst (scanDirectory js opts (join dir item) (currentDepth + 1) n) = []"
      using UnreadableDirectory by (simp add: scanDirectory_no_listing)
    with "3.prems" have "f \<in> set (fst (fst (scanItems js opts dir currentDepth rest)))"
      unfolding scanItems_dir_step[OF d] by simp
    from "3.IH"(5)[OF UnreadableDirectory prod.collapse this] show ?thesis
      using UnreadableDirectory by auto
  next
    case Special
    with "3.prems" "3.IH"(6)[OF Special] show ?thesis by auto
  next
    case Missing
    with "3.prems" show ?thesis by simp
  qed
qed

lemma unreadable_fails_search:
  "searchActive opts \<Longrightarrow> passesAll js opts (p, item, st, content) \<Longrightarrow> content \<noteq> None"
  by (auto simp: searchActive_def passesAll_def containsSearchText_def split: option.splits)

lemma exceeds_Finite: "exceeds k (Finite d) = (d < of_nat k)"
  by (simp add: exceeds_def)

text \<open>
  Claim C2. When the depth bound is the number \<open>d\<close>, every record returned by a scan that
  starts in \<open>dir\<close> at the depth \<open>k\<close> is that of a path \<open>dir @ rel\<close> with
  \<open>k + pathDepth rel \<le> d\<close>, the children of the directory the scan starts in being at
  \<open>pathDepth\<close> 0; \<^verbatim>\<open>main\<close> starts the scan in the root at depth 0, where \<open>rel\<close> is the
  relative path of the record. A call at a depth beyond \<open>d\<close> returns no record and does
  nothing.
\<close>

theorem depth_bound:
  assumes "depth opts = Finite d"
  shows "(\<forall>f \<in> set (fst (scanDirectory js opts dir k n)).
            \<exists>rel. path f = dir @ rel \<and> rel \<noteq> [] \<and> of_nat (k + pathDepth rel) \<le> d
                  \<and> (baseDir opts = Some dir \<longrightarrow> relativePath f = rel))
         \<and> (d < of_nat k' \<longrightarrow> scanDirectory js opts dir' k' n' = ([], []))"
proof -
  have a: "\<forall>f \<in> set (fst (scanDirectory js opts dir k n)).
            \<exists>rel. path f = dir @ rel \<and> rel \<noteq> [] \<and> of_nat (k + pathDepth rel) \<le> d
                  \<and> (baseDir opts = Some dir \<longrightarrow> relativePath f = rel)"
  proof
    fix f assume "f \<in> set (fst (scanDirectory js opts dir k n))"
    from scan_paths(1)[OF this] obtain rel where
      p: "path f = dir @ rel" and ne: "rel \<noteq> []"
      and ex: "\<not> exceeds (k + length rel - 1) (depth opts)"
      and rp: "relativePath f = relative (the (baseDir opts)) (dir @ rel)"
      by blast
    from ne have "k + length rel - 1 = k + pathDepth rel"
      by (cases rel) (simp_all add: pathDepth_def)
    with ex assms have "of_nat (k + pathDepth rel) \<le> d"
      by (simp add: exceeds_Finite not_less)
    moreover from rp have "baseDir opts = Some dir \<longrightarrow> relativePath f = rel" by simp
    ultimately show "\<exists>rel. path f = dir @ rel \<and> rel \<noteq> [] \<and> of_nat (k + pathDepth rel) \<le> d
                  \<and> (baseDir opts = Some dir \<longrightarrow> relativePath f = rel)"
      using p ne by blast
  qed
  have b: "d < of_nat k' \<longrightarrow> scanDirectory js opts dir' k' n' = ([], [])"
    using assms by (simp add: exceeds_Finite)
  from a b show ?thesis by blast
qed

text \<open>
  With \<^verbatim>\<open>--depth 1\<close> on a tree with files at the depths 0, 1 and 2, the files at the depths
  0 and 1 are returned, and the call for the directory at depth 2 returns nothing.
\<close>

theorem depth_bound_witness:
  "depth sampleOptions = Finite 1
   \<and> map relativePath (fst (scanDirectory sampleLanguage sampleOptions [''root''] 0 deepTree))
       = [[''top.txt''], [''c'', ''d.txt'']]
   \<and> list_all (\<lambda>f. pathDepth (relativePath f) \<le> 1)
        (fst (scanDirectory sampleLanguage sampleOptions [''root''] 0 deepTree))
   \<and> map (\<lambda>e. fst e) (regularFiles Infinity [''root''] 0 deepTree)
       = [[''root'', ''top.txt''], [''root'', ''c'', ''d.txt''], [''root'', ''c'', ''e'', ''f.txt'']]
   \<and> scanDirectory sampleLanguage sampleOptions [''root'', ''c'', ''e''] 2
        (Directory [(''f.txt'', RegularFile (sampleStats 6) (Some ''123456''))]) = ([], [])"
proof -
  have h: "depth sampleOptions = Finite 1" by (simp add: sampleOptions_def)
  have bd: "baseDir sampleOptions = Some [''root'']" by (simp add: sampleOptions_def)
  note t = depth_bound[OF h, of sampleLanguage "[''root'']" 0 deepTree 2 "[''root'', ''c'', ''e'']"
      "Directory [(''f.txt'', RegularFile (sampleStats 6) (Some ''123456''))]"]
  have a: "map relativePath (fst (scanDirectory sampleLanguage sampleOptions [''root''] 0 deepTree))
       = [[''top.txt''], [''c'', ''d.txt'']]"
    by (simp add: scan_eval string_defs mkFileInfo_def)
  from t bd have "\<forall>f \<in> set (fst (scanDirectory sampleLanguage sampleOptions [''root''] 0 deepTree)).
      of_nat (pathDepth (relativePath f)) \<le> (1::rat)"
    by fastforce
  then have b: "list_all (\<lambda>f. pathDepth (relativePath f) \<le> 1)
        (fst (scanDirectory sampleLanguage sampleOptions [''root''] 0 deepTree))"
    unfolding list_all_iff by (metis of_nat_le_iff of_nat_1)
  have c: "map (\<lambda>e. fst e) (regularFiles Infinity [''root''] 0 deepTree)
       = [[''root'', ''top.txt''], [''root'', ''c'', ''d.txt''], [''root'', ''c'', ''e'', ''f.txt'']]"
    by (simp add: scan_eval)
  from t have d: "scanDirectory sampleLanguage sampleOptions [''root'', ''c'', ''e''] 2
        (Directory [(''f.txt'', RegularFile (sampleStats 6) (Some ''123456''))]) = ([], [])"
    by simp
  from h a b c d show ?thesis by blast
qed

text \<open>
  Claim C5. With a search text set, \<^verbatim>\<open>containsSearchText\<close> answers \<^verbatim>\<open>false\<close> for a file
  whose content cannot be read. Such a file, when it passes the extension, name and size
  tests, adds no record; the loop goes on with the rest of the directory, whose records,
  events and end are unchanged, the read attempt apart. No record of a scan belongs to a
  file whose content cannot be read. Every file whose content is read has passed the
  extension, name and size tests, and a file that fails one of them is not read.
\<close>

theorem content_read_failure:
  "(searchActive opts \<longrightarrow>
      containsSearchText js filePath None (searchText opts) = (False, [ReadFile filePath]))
   \<and> (searchActive opts \<and> baseDir opts = Some base
        \<and> passesFirstThree js opts (join dir item, item, st, None) \<longrightarrow>
      scanItems js opts dir k ((item, RegularFile st None) # rest)
        = ((fst (fst (scanItems js opts dir k rest)),
            ReadFile (join dir item) # snd (fst (scanItems js opts dir k rest))),
           snd (scanItems js opts dir k rest)))
   \<and> (searchActive opts \<longrightarrow>
        (\<forall>f \<in> set (fst (scanDirectory js opts dir k n)).
           \<exists>e \<in> set (regularFiles (depth opts) dir k n).
              (\<exists>b. baseDir opts = Some b \<and> f = infoOf js b e) \<and> snd (snd (snd e)) \<noteq> None))
   \<and> (\<forall>p \<in> set (readsOf (snd (scanDirectory js opts dir k n))).
        \<exists>e \<in> set (regularFiles (depth opts) dir k n). fst e = p \<and> passesFirstThree js opts e)
   \<and> (\<not> passesFirstThree js opts (itemPath, item', st', content) \<longrightarrow>
        readsOf (snd (applyFilters js opts itemPath item' st' content)) = [])"
proof -
  have a: "searchActive opts \<longrightarrow>
      containsSearchText js filePath None (searchText opts) = (False, [ReadFile filePath])"
    by (auto simp: searchActive_def containsSearchText_def split: option.splits)
  have b: "searchActive opts \<and> baseDir opts = Some base
        \<and> passesFirstThree js opts (join dir item, item, st, None) \<longrightarrow>
      scanItems js opts dir k ((item, RegularFile st None) # rest)
        = ((fst (fst (scanItems js opts dir k rest)),
            ReadFile (join dir item) # snd (fst (scanItems js opts dir k rest))),
           snd (scanItems js opts dir k rest))"
  proof
    assume h: "searchActive opts \<and> baseDir opts = Some base
        \<and> passesFirstThree js opts (join dir item, item, st, None)"
    then have "applyFilters js opts (join dir item) item st None
                 = (Some False, [ReadFile (join dir item)])"
      by (auto simp: applyFilters_def passesFirstThree_def searchActive_def
            containsSearchText_def split: option.splits)
    with h show "scanItems js opts dir k ((item, RegularFile st None) # rest)
        = ((fst (fst (scanItems js opts dir k rest)),
            ReadFile (join dir item) # snd (fst (scanItems js opts dir k rest))),
           snd (scanItems js opts dir k rest))"
      by (simp add: scanItems_RegularFile del: scanItems.simps split: prod.splits)
  qed
  have c: "searchActive opts \<longrightarrow>
        (\<forall>f \<in> set (fst (scanDirectory js opts dir k n)).
           \<exists>e \<in> set (regularFiles (depth opts) dir k n).
              (\<exists>b. baseDir opts = Some b \<and> f = infoOf js b e) \<and> snd (snd (snd e)) \<noteq> None)"
  proof (intro impI ballI)
    fix f assume sa: "searchActive opts"
      and "f \<in> set (fst (scanDirectory js opts dir k n))"
    from scan_sound(1)[OF this(2)] obtain e where
      e: "e \<in> set (regularFiles (depth opts) dir k n)"
      and i: "\<exists>b. baseDir opts = Some b \<and> f = infoOf js b e"
      and p: "passesAll js opts e" by blast
    obtain q it s ct where eq: "e = (q, it, s, ct)" by (cases e) auto
    from unreadable_fails_search[OF sa p[unfolded eq]] eq have "snd (snd (snd e)) \<noteq> None"
      by simp
    with e i show "\<exists>e \<in> set (regularFiles (depth opts) dir k n).
              (\<exists>b. baseDir opts = Some b \<and> f = infoOf js b e) \<and> snd (snd (snd e)) \<noteq> None"
      by blast
  qed
  have d: "\<forall>p \<in> set (readsOf (snd (scanDirectory js opts dir k n))).
        \<exists>e \<in> set (regularFiles (depth opts) dir k n). fst e = p \<and> passesFirstThree js opts e"
    using scan_reads(1) by blast
  have e: "\<not> passesFirstThree js opts (itemPath, item', st', content) \<longrightarrow>
        readsOf (snd (applyFilters js opts itemPath item' st' content)) = []"
    by (auto simp: applyFilters_def passesFirstThree_def split: option.splits bool.splits)
  from a b c d e show ?thesis by blast
qed

text \<open>
  With \<^verbatim>\<open>--ext .log --search z\<close> on a directory with \<^verbatim>\<open>a.log\<close>, the unreadable
  \<^verbatim>\<open>locked.log\<close>, the unreadable \<^verbatim>\<open>skip.txt\<close> and \<^verbatim>\<open>z.log\<close>: the two readable logs are
  returned, \<^verbatim>\<open>locked.log\<close> is read and left out, \<^verbatim>\<open>skip.txt\<close> is not read.
\<close>

theorem content_read_failure_witness:
  "searchActive searchOptions \<and> baseDir searchOptions = Some [''root'']
   \<and> passesFirstThree sampleLanguage searchOptions
       (join [''root''] ''locked.log'', ''locked.log'', sampleStats 3, None)
   \<and> \<not> passesFirstThree sampleLanguage searchOptions
       ([''root'', ''skip.txt''], ''skip.txt'', sampleStats 2, None)
   \<and> scanItems sampleLanguage searchOptions [''root''] 0
        [(''locked.log'', RegularFile (sampleStats 3) None),
         (''z.log'', RegularFile (sampleStats 1) (Some ''Z''))]
       = (([mkFileInfo sampleLanguage [''root''] ''z.log'' [''root'', ''z.log''] (sampleStats 1)],
           [ReadFile [''root'', ''locked.log''], ReadFile [''root'', ''z.log'']]), False)
   \<and> map name (fst (scanDirectory sampleLanguage searchOptions [''root''] 0 lockedTree))
       = [''a.log'', ''z.log'']
   \<and> snd (scanDirectory sampleLanguage searchOptions [''root''] 0 lockedTree)
       = [ReadFile [''root'', ''a.log''], ReadFile [''root'', ''locked.log''],
          ReadFile [''root'', ''z.log'']]
   \<and> readsOf (snd (applyFilters sampleLanguage searchOptions [''root'', ''skip.txt'']
                     ''skip.txt'' (sampleStats 2) None)) = []"
proof -
  have sa: "searchActive searchOptions"
    by (simp add: searchActive_def searchOptions_def defaults_def)
  have bd: "baseDir searchOptions = Some [''root'']" by (simp add: searchOptions_def)
  have p3: "passesFirstThree sampleLanguage searchOptions
       (join [''root''] ''locked.log'', ''locked.log'', sampleStats 3, None)"
    by (simp add: scan_eval string_defs)
  have n3: "\<not> passesFirstThree sampleLanguage searchOptions
       ([''root'', ''skip.txt''], ''skip.txt'', sampleStats 2, None)"
    by (simp add: scan_eval string_defs)
  note t = content_read_failure[where opts = searchOptions and js = sampleLanguage
      and base = "[''root'']" and dir = "[''root'']" and item = "''locked.log''"
      and st = "sampleStats 3" and k = 0
      and rest = "[(''z.log'', RegularFile (sampleStats 1) (Some ''Z''))]"
      and itemPath = "[''root'', ''skip.txt'']" and item' = "''skip.txt''"
      and st' = "sampleStats 2" and content = None]
  have rest: "scanItems sampleLanguage searchOptions [''root''] 0
        [(''z.log'', RegularFile (sampleStats 1) (Some ''Z''))]
       = (([mkFileInfo sampleLanguage [''root''] ''z.log'' [''root'', ''z.log''] (sampleStats 1)],
           [ReadFile [''root'', ''z.log'']]), False)"
    by (simp add: scan_eval string_defs)
  from t sa bd p3 have "scanItems sampleLanguage searchOptions [''root''] 0
        ((''locked.log'', RegularFile (sampleStats 3) None)
         # [(''z.log'', RegularFile (sampleStats 1) (Some ''Z''))])
       = ((fst (fst (scanItems sampleLanguage searchOptions [''root''] 0
                       [(''z.log'', RegularFile (sampleStats 1) (Some ''Z''))])),
            ReadFile (join [''root''] ''locked.log'')
              # snd (fst (scanItems sampleLanguage searchOptions [''root''] 0
                       [(''z.log'', RegularFile (sampleStats 1) (Some ''Z''))]))),
           snd (scanItems sampleLanguage searchOptions [''root''] 0
                       [(''z.log'', RegularFile (sampleStats 1) (Some ''Z''))]))"
    by blast
  then have step: "scanItems sampleLanguage searchOptions [''root''] 0
        [(''locked.log'', RegularFile (sampleStats 3) None),
         (''z.log'', RegularFile (sampleStats 1) (Some ''Z''))]
       = (([mkFileInfo sampleLanguage [''root''] ''z.log'' [''root'', ''z.log''] (sampleStats 1)],
           [ReadFile [''root'', ''locked.log''], ReadFile [''root'', ''z.log'']]), False)"
    unfolding rest by (simp add: join_def)
  have names: "map name (fst (scanDirectory sampleLanguage searchOptions [''root''] 0 lockedTree))
       = [''a.log'', ''z.log'']"
    by (simp add: scan_eval string_defs mkFileInfo_def)
  have evs: "snd (scanDirectory sampleLanguage searchOptions [''root''] 0 lockedTree)
       = [ReadFile [''root'', ''a.log''], ReadFile [''root'', ''locked.log''],
          ReadFile [''root'', ''z.log'']]"
    by (simp add: scan_eval string_defs)
  from t n3 have skip: "readsOf (snd (applyFilters sampleLanguage searchOptions
      [''root'', ''skip.txt''] ''skip.txt'' (sampleStats 2) None)) = []"
    by blast
  from sa bd p3 n3 step names evs skip show ?thesis by blast
qed

section \<open>Exit codes\<close>

lemma parseLoop_known_flags:
  "parseLoop js args opts = Inr r \<Longrightarrow> a \<in> set args \<Longrightarrow> startsWith a ''--'' \<Longrightarrow>
     a \<in> set knownFlags"
proof (induction js args opts rule: parseLoop.induct)
  case (1 js opts)
  then show ?case by simp
next
  case (2 js arg rest opts)
  show ?case
  proof (cases "a = arg")
    case True
    with "2.prems"(1,3) show ?thesis
      by (simp add: knownFlags_def split: if_splits)
  next
    case False
    with "2.prems"(2) have ar: "a \<in> set rest" by simp
    have nv: "\<not> noValue rest \<Longrightarrow> a \<in> set (tl rest)"
      using ar "2.prems"(3) by (cases rest) (auto simp: noValue_def)
    show ?thesis
    proof (cases "startsWith arg ''--''")
      case False
      with "2.prems"(1) "2.IH"(11) ar "2.prems"(3) show ?thesis
        by (simp split: if_splits)
    next
      case True
      note sw = this
      consider (f_depth) "arg = ''--depth''" | (f_ext) "arg = ''--ext''" | (f_name) "arg = ''--name''"
        | (f_size) "arg = ''--size''" | (f_search) "arg = ''--search''" | (f_tree) "arg = ''--tree''"
        | (f_stats) "arg = ''--stats''" | (f_json) "arg = ''--json''" | (f_csv) "arg = ''--csv''"
        | (f_help) "arg = ''--help''"
        | (f_other) "arg \<notin> set knownFlags"
        by (auto simp: knownFlags_def)
      then show ?thesis
      proof cases
        case f_depth
        with "2.prems"(1) sw have n: "\<not> noValue rest"
          and ok: "\<not> (isNaN (Number js (hd rest)) \<or> negative (Number js (hd rest)))"
          and r: "parseLoop js (tl rest) (opts\<lparr>depth := Number js (hd rest)\<rparr>) = Inr r"
          by (simp_all split: if_splits)
        from "2.IH"(1)[OF sw f_depth n ok r nv[OF n] "2.prems"(3)] show ?thesis .
      next
        case f_ext
        with "2.prems"(1) sw have n: "\<not> noValue rest"
          and r: "parseLoop js (tl rest) (opts\<lparr>extensions :=
                      map (\<lambda>ext. toLowerCase js (trim js ext))
                        (splitOn (CHR '','') (hd rest))\<rparr>) = Inr r"
          by (simp_all split: if_splits)
        have ne: "arg \<noteq> ''--depth''" using f_ext by simp
        from "2.IH"(2)[OF sw ne f_ext n r nv[OF n] "2.prems"(3)] show ?thesis .
      next
        case f_name
        with "2.prems"(1) sw have n: "\<not> noValue rest"
          and r: "parseLoop js (tl rest) (opts\<lparr>namePattern := Some (hd rest)\<rparr>) = Inr r"
          by (simp_all split: if_splits)
        have ne: "arg \<noteq> ''--depth''" "arg \<noteq> ''--ext''" using f_name by simp_all
        from "2.IH"(3)[OF sw ne f_name n r nv[OF n] "2.prems"(3)] show ?thesis .
      next
        case f_size
        with "2.prems"(1) sw have n: "\<not> noValue rest"
          by (simp_all split: if_splits)
        from f_size "2.prems"(1) sw n obtain f where pf: "parseSizeFilter (hd rest) = Inr f"
          and r: "parseLoop js (tl rest) (opts\<lparr>sizeFilter := Some f\<rparr>) = Inr r"
          by (auto split: if_splits sum.splits)
        have ne: "arg \<noteq> ''--depth''" "arg \<noteq> ''--ext''" "arg \<noteq> ''--name''"
          using f_size by simp_all
        from "2.IH"(4)[OF sw ne f_size n pf r nv[OF n] "2.prems"(3)] show ?thesis .
      next
        case f_search
        with "2.prems"(1) sw have n: "\<not> noValue rest"
          and r: "parseLoop js (tl rest) (opts\<lparr>searchText := Some (hd rest)\<rparr>) = Inr r"
          by (simp_all split: if_splits)
        have ne: "arg \<noteq> ''--depth''" "arg \<noteq> ''--ext''" "arg \<noteq> ''--name''"
          "arg \<noteq> ''--size''"
          using f_search by simp_all
        from "2.IH"(5)[OF sw ne f_search n r nv[OF n] "2.prems"(3)] show ?thesis .
      next
        case f_tree
        with "2.prems"(1) sw have r: "parseLoop js rest (opts\<lparr>showTree := True\<rparr>) = Inr r"
          by simp
        have ne: "arg \<noteq> ''--depth''" "arg \<noteq> ''--ext''" "arg \<noteq> ''--name''"
          "arg \<noteq> ''--size''" "arg \<noteq> ''--search''"
          using f_tree by simp_all
        from "2.IH"(6)[OF sw ne f_tree r ar "2.prems"(3)] show ?thesis .
      next
        case f_stats
        with "2.prems"(1) sw have r: "parseLoop js rest (opts\<lparr>showStats := True\<rparr>) = Inr r"
          by simp
        have ne: "arg \<noteq> ''--depth''" "arg \<noteq> ''--ext''" "arg \<noteq> ''--name''"
          "arg \<noteq> ''--size''" "arg \<noteq> ''--search''" "arg \<noteq> ''--tree''"
          using f_stats by simp_all
        from "2.IH"(7)[OF sw ne f_stats r ar "2.prems"(3)] show ?thesis .
      next
        case f_json
        with "2.prems"(1) sw have r: "parseLoop js rest (opts\<lparr>outputJson := True\<rparr>) = Inr r"
          by simp
        have ne: "arg \<noteq> ''--depth''" "arg \<noteq> ''--ext''" "arg \<noteq> ''--name''"
          "arg \<noteq> ''--size''" "arg \<noteq> ''--search''" "arg \<noteq> ''--tree''" "arg \<noteq> ''--stats''"
          using f_json by simp_all
        from "2.IH"(8)[OF sw ne f_json r ar "2.prems"(3)] show ?thesis .
      next
        case f_csv
        with "2.prems"(1) sw have r: "parseLoop js rest (opts\<lparr>outputCsv := True\<rparr>) = Inr r"
          by simp
        have ne: "arg \<noteq> ''--depth''" "arg \<noteq> ''--ext''" "arg \<noteq> ''--name''"
          "arg \<noteq> ''--size''" "arg \<noteq> ''--search''" "arg \<noteq> ''--tree''" "arg \<noteq> ''--stats''"
          "arg \<noteq> ''--json''"
          using f_csv by simp_all
        from "2.IH"(9)[OF sw ne f_csv r ar "2.prems"(3)] show ?thesis .
      next
        case f_help
        with "2.prems"(1) sw have r: "parseLoop js rest opts = Inr r"
          by simp
        have ne: "arg \<noteq> ''--depth''" "arg \<noteq> ''--ext''" "arg \<noteq> ''--name''"
          "arg \<noteq> ''--size''" "arg \<noteq> ''--search''" "arg \<noteq> ''--tree''" "arg \<noteq> ''--stats''"
          "arg \<noteq> ''--json''" "arg \<noteq> ''--csv''"
          using f_help by simp_all
        from "2.IH"(10)[OF sw ne f_help r ar "2.prems"(3)] show ?thesis .
      next
        case f_other
        with "2.prems"(1) sw show ?thesis by (simp add: knownFlags_def)
      qed
    qed
  qed
qed


lemma isDirectory_exists: "isDirectory n \<Longrightarrow> existsSync n"
  by (cases n) (simp_all add: isDirectory_def existsSync_def)

lemma parseArguments_dirPath:
  "parseArguments js argv = Inr opts \<Longrightarrow> \<exists>d. dirPath opts = Some d \<and> d \<noteq> []"
  by (cases "dirPath opts") (auto simp: parseArguments_def split: sum.splits if_splits)

lemmas parse_eval = parseArguments_def noValue_def isNaN_def negative_def
  decimalNumber_def matchNumber_def Number_decimal_def digitsValue_def digitValue_def
  asciiTrim_def isWhiteSpace_def defaults_def sampleLanguage_def string_defs

lemmas main_eval = main_def isHelpRequested_def sampleWorld_def existsSync_def isDirectory_def

text \<open>
  Claim C9, as stated: the exit code is 1 for every configuration error, a missing path
  argument among them. Without any argument the path argument is missing, as
  \<open>parseArguments\<close> reports, yet \<^verbatim>\<open>main\<close> never parses: \<^verbatim>\<open>isHelpRequested\<close> holds for
  \<^verbatim>\<open>process.argv.length <= 2\<close>, the usage text is printed and the exit code is 0.
\<close>

theorem exit_codes_counterexample:
  "parseArguments sampleLanguage [''node'', ''index.js''] = Inl MissingDirectoryPath
   \<and> main sampleLanguage sampleWorld [''node'', ''index.js'']
       = \<lparr>exitCode = 0, usageShown = True, failed = None, scanned = None\<rparr>"
  by (simp add: parse_eval main_eval)

text \<open>
  Claim C9, amended. When help is requested, that is with \<^verbatim>\<open>--help\<close> among the arguments
  or with no argument at all, the usage text is printed, no scan runs and the exit code is
  0. Otherwise: every error of \<open>parseArguments\<close> gives the exit code 1 with no scan, which
  includes an argument that starts with \<^verbatim>\<open>--\<close> and is not an option of the usage text, and
  a command line that leaves the path unset; a parsed command line has a non-empty path; a
  root that does not exist, or is not a directory, gives the exit code 1 with no scan; a
  root that is a directory is scanned from depth 0 and the exit code is 0, whatever the
  scan returns. The exit code is 0 exactly when help is requested or a scan ran, and 1
  exactly when an error is reported.
\<close>

theorem exit_codes:
  "(isHelpRequested argv \<longrightarrow>
      exitCode (main js w argv) = 0 \<and> usageShown (main js w argv)
      \<and> scanned (main js w argv) = None)
   \<and> (\<not> isHelpRequested argv \<and> parseArguments js argv = Inl e \<longrightarrow>
      exitCode (main js w argv) = 1 \<and> failed (main js w argv) = Some (ConfigurationError e)
      \<and> scanned (main js w argv) = None)
   \<and> (a \<in> set (drop 2 argv) \<and> startsWith a ''--'' \<and> a \<notin> set knownFlags \<longrightarrow>
      (\<exists>e. parseArguments js argv = Inl e))
   \<and> (parseLoop js (drop 2 argv) defaults = Inr opts' \<and> dirPath opts' = None \<longrightarrow>
      parseArguments js argv = Inl MissingDirectoryPath)
   \<and> (parseArguments js argv = Inr opts \<longrightarrow> (\<exists>d. dirPath opts = Some d \<and> d \<noteq> []))
   \<and> (\<not> isHelpRequested argv \<and> parseArguments js argv = Inr opts \<and> dirPath opts = Some d
        \<and> \<not> existsSync (nodeAt w (resolve w d)) \<longrightarrow>
      exitCode (main js w argv) = 1
      \<and> failed (main js w argv) = Some (DirectoryNotFound (resolve w d))
      \<and> scanned (main js w argv) = None)
   \<and> (\<not> isHelpRequested argv \<and> parseArguments js argv = Inr opts \<and> dirPath opts = Some d
        \<and> existsSync (nodeAt w (resolve w d)) \<and> \<not> isDirectory (nodeAt w (resolve w d)) \<longrightarrow>
      exitCode (main js w argv) = 1 \<and> failed (main js w argv) = Some NotADirectory
      \<and> scanned (main js w argv) = None)
   \<and> (\<not> isHelpRequested argv \<and> parseArguments js argv = Inr opts \<and> dirPath opts = Some d
        \<and> isDirectory (nodeAt w (resolve w d)) \<longrightarrow>
      exitCode (main js w argv) = 0 \<and> failed (main js w argv) = None
      \<and> scanned (main js w argv)
          = Some (scanDirectory js (opts\<lparr>baseDir := Some (resolve w d)\<rparr>) (resolve w d) 0
                    (nodeAt w (resolve w d))))
   \<and> (exitCode (main js w argv) = 0
        \<longleftrightarrow> isHelpRequested argv \<or> scanned (main js w argv) \<noteq> None)
   \<and> (exitCode (main js w argv) = 1 \<longleftrightarrow> failed (main js w argv) \<noteq> None)"
proof -
  have c1: "isHelpRequested argv \<longrightarrow>
      exitCode (main js w argv) = 0 \<and> usageShown (main js w argv)
      \<and> scanned (main js w argv) = None"
    by (simp add: main_def)
  have c2: "\<not> isHelpRequested argv \<and> parseArguments js argv = Inl e \<longrightarrow>
      exitCode (main js w argv) = 1 \<and> failed (main js w argv) = Some (ConfigurationError e)
      \<and> scanned (main js w argv) = None"
    by (simp add: main_def)
  have c3: "a \<in> set (drop 2 argv) \<and> startsWith a ''--'' \<and> a \<notin> set knownFlags \<longrightarrow>
      (\<exists>e. parseArguments js argv = Inl e)"
  proof
    assume h: "a \<in> set (drop 2 argv) \<and> startsWith a ''--'' \<and> a \<notin> set knownFlags"
    have "\<exists>e. parseLoop js (drop 2 argv) defaults = Inl e"
    proof (cases "parseLoop js (drop 2 argv) defaults")
      case (Inl e)
      then show ?thesis by simp
    next
      case (Inr r)
      from parseLoop_known_flags[OF Inr] h show ?thesis by blast
    qed
    then show "\<exists>e. parseArguments js argv = Inl e"
      by (auto simp: parseArguments_def)
  qed
  have c4: "parseLoop js (drop 2 argv) defaults = Inr opts' \<and> dirPath opts' = None \<longrightarrow>
      parseArguments js argv = Inl MissingDirectoryPath"
    by (simp add: parseArguments_def)
  have c5: "parseArguments js argv = Inr opts \<longrightarrow> (\<exists>d. dirPath opts = Some d \<and> d \<noteq> [])"
    using parseArguments_dirPath by blast
  have c6: "\<not> isHelpRequested argv \<and> parseArguments js argv = Inr opts \<and> dirPath opts = Some d
        \<and> \<not> existsSync (nodeAt w (resolve w d)) \<longrightarrow>
      exitCode (main js w argv) = 1
      \<and> failed (main js w argv) = Some (DirectoryNotFound (resolve w d))
      \<and> scanned (main js w argv) = None"
    by (simp add: main_def)
  have c7: "\<not> isHelpRequested argv \<and> parseArguments js argv = Inr opts \<and> dirPath opts = Some d
        \<and> existsSync (nodeAt w (resolve w d)) \<and> \<not> isDirectory (nodeAt w (resolve w d)) \<longrightarrow>
      exitCode (main js w argv) = 1 \<and> failed (main js w argv) = Some NotADirectory
      \<and> scanned (main js w argv) = None"
    by (simp add: main_def)
  have c8: "\<not> isHelpRequested argv \<and> parseArguments js argv = Inr opts \<and> dirPath opts = Some d
        \<and> isDirectory (nodeAt w (resolve w d)) \<longrightarrow>
      exitCode (main js w argv) = 0 \<and> failed (main js w argv) = None
      \<and> scanned (main js w argv)
          = Some (scanDirectory js (opts\<lparr>baseDir := Some (resolve w d)\<rparr>) (resolve w d) 0
                    (nodeAt w (resolve w d)))"
    using isDirectory_exists[of "nodeAt w (resolve w d)"] by (auto simp: main_def Let_def)
  have c9: "exitCode (main js w argv) = 0
        \<longleftrightarrow> isHelpRequested argv \<or> scanned (main js w argv) \<noteq> None"
    by (simp add: main_def Let_def split: sum.splits option.splits)
  have c10: "exitCode (main js w argv) = 1 \<longleftrightarrow> failed (main js w argv) \<noteq> None"
    by (simp add: main_def Let_def split: sum.splits option.splits)
  from c1 c2 c3 c4 c5 c6 c7 c8 c9 c10 show ?thesis by blast
qed

text \<open>
  On a world where \<^verbatim>\<open>root\<close> is a directory and \<^verbatim>\<open>notes.txt\<close> a file: \<^verbatim>\<open>--help\<close>, a depth
  that is not a number, an unknown option, a missing path, a root that does not exist, a
  root that is a file, and a scan without a match.
\<close>

theorem exit_codes_witness:
  "isHelpRequested [''node'', ''index.js'', ''root'', ''--help'']
   \<and> exitCode (main sampleLanguage sampleWorld [''node'', ''index.js'', ''root'', ''--help'']) = 0
   \<and> scanned (main sampleLanguage sampleWorld [''node'', ''index.js'', ''root'', ''--help''])
       = None
   \<and> \<not> isHelpRequested [''node'', ''index.js'', ''root'', ''--depth'', ''x'']
   \<and> parseArguments sampleLanguage [''node'', ''index.js'', ''root'', ''--depth'', ''x'']
       = Inl DepthNotNonNegative
   \<and> exitCode (main sampleLanguage sampleWorld
                  [''node'', ''index.js'', ''root'', ''--depth'', ''x'']) = 1
   \<and> ''--bogus'' \<in> set (drop 2 [''node'', ''index.js'', ''root'', ''--bogus''])
   \<and> startsWith ''--bogus'' ''--'' \<and> ''--bogus'' \<notin> set knownFlags
   \<and> parseArguments sampleLanguage [''node'', ''index.js'', ''root'', ''--bogus'']
       = Inl (UnknownOption ''--bogus'')
   \<and> parseLoop sampleLanguage (drop 2 [''node'', ''index.js'', ''--tree'']) defaults
       = Inr (defaults\<lparr>showTree := True\<rparr>)
   \<and> parseArguments sampleLanguage [''node'', ''index.js'', ''--tree'']
       = Inl MissingDirectoryPath
   \<and> exitCode (main sampleLanguage sampleWorld [''node'', ''index.js'', ''--tree'']) = 1
   \<and> parseArguments sampleLanguage [''node'', ''index.js'', ''nowhere'']
       = Inr (defaults\<lparr>dirPath := Some ''nowhere''\<rparr>)
   \<and> \<not> existsSync (nodeAt sampleWorld (resolve sampleWorld ''nowhere''))
   \<and> exitCode (main sampleLanguage sampleWorld [''node'', ''index.js'', ''nowhere'']) = 1
   \<and> scanned (main sampleLanguage sampleWorld [''node'', ''index.js'', ''nowhere'']) = None
   \<and> parseArguments sampleLanguage [''node'', ''index.js'', ''notes.txt'']
       = Inr (defaults\<lparr>dirPath := Some ''notes.txt''\<rparr>)
   \<and> existsSync (nodeAt sampleWorld (resolve sampleWorld ''notes.txt''))
   \<and> \<not> isDirectory (nodeAt sampleWorld (resolve sampleWorld ''notes.txt''))
   \<and> failed (main sampleLanguage sampleWorld [''node'', ''index.js'', ''notes.txt''])
       = Some NotADirectory
   \<and> exitCode (main sampleLanguage sampleWorld [''node'', ''index.js'', ''notes.txt'']) = 1
   \<and> parseArguments sampleLanguage [''node'', ''index.js'', ''root'', ''--ext'', ''.zip'']
       = Inr (defaults\<lparr>dirPath := Some ''root'', extensions := [''.zip'']\<rparr>)
   \<and> isDirectory (nodeAt sampleWorld (resolve sampleWorld ''root''))
   \<and> exitCode (main sampleLanguage sampleWorld
                  [''node'', ''index.js'', ''root'', ''--ext'', ''.zip'']) = 0
   \<and> scanned (main sampleLanguage sampleWorld
                 [''node'', ''index.js'', ''root'', ''--ext'', ''.zip'']) = Some ([], [])"
proof -
  have h1: "isHelpRequested [''node'', ''index.js'', ''root'', ''--help'']"
    by (simp add: isHelpRequested_def)
  from exit_codes[of "[''node'', ''index.js'', ''root'', ''--help'']" sampleLanguage sampleWorld]
    h1
  have a1: "exitCode (main sampleLanguage sampleWorld
                        [''node'', ''index.js'', ''root'', ''--help'']) = 0"
    and a2: "scanned (main sampleLanguage sampleWorld
                        [''node'', ''index.js'', ''root'', ''--help'']) = None"
    by blast+
  have h2: "\<not> isHelpRequested [''node'', ''index.js'', ''root'', ''--depth'', ''x'']"
    by (simp add: isHelpRequested_def)
  have p2: "parseArguments sampleLanguage [''node'', ''index.js'', ''root'', ''--depth'', ''x'']
       = Inl DepthNotNonNegative"
    by (simp add: parse_eval)
  from exit_codes[of "[''node'', ''index.js'', ''root'', ''--depth'', ''x'']" sampleLanguage
      sampleWorld DepthNotNonNegative] h2 p2
  have b1: "exitCode (main sampleLanguage sampleWorld
                  [''node'', ''index.js'', ''root'', ''--depth'', ''x'']) = 1"
    by blast
  have h3: "''--bogus'' \<in> set (drop 2 [''node'', ''index.js'', ''root'', ''--bogus''])"
    "startsWith ''--bogus'' ''--''" "''--bogus'' \<notin> set knownFlags"
    by (simp_all add: knownFlags_def)
  have p3: "parseArguments sampleLanguage [''node'', ''index.js'', ''root'', ''--bogus'']
       = Inl (UnknownOption ''--bogus'')"
    by (simp add: parse_eval)
  have l4: "parseLoop sampleLanguage (drop 2 [''node'', ''index.js'', ''--tree'']) defaults
       = Inr (defaults\<lparr>showTree := True\<rparr>)"
    by simp
  have d4: "dirPath (defaults\<lparr>showTree := True\<rparr>) = None" by (simp add: defaults_def)
  from exit_codes[where argv = "[''node'', ''index.js'', ''--tree'']" and js = sampleLanguage
      and opts' = "defaults\<lparr>showTree := True\<rparr>"] l4 d4
  have p4: "parseArguments sampleLanguage [''node'', ''index.js'', ''--tree'']
       = Inl MissingDirectoryPath"
    by blast
  have h4: "\<not> isHelpRequested [''node'', ''index.js'', ''--tree'']"
    by (simp add: isHelpRequested_def)
  from exit_codes[where argv = "[''node'', ''index.js'', ''--tree'']" and js = sampleLanguage
      and w = sampleWorld and e = MissingDirectoryPath] h4 p4
  have c1: "exitCode (main sampleLanguage sampleWorld [''node'', ''index.js'', ''--tree'']) = 1"
    by blast
  have h5: "\<not> isHelpRequested [''node'', ''index.js'', ''nowhere'']"
    by (simp add: isHelpRequested_def)
  have p5: "parseArguments sampleLanguage [''node'', ''index.js'', ''nowhere'']
       = Inr (defaults\<lparr>dirPath := Some ''nowhere''\<rparr>)"
    by (simp add: parse_eval)
  have d5: "dirPath (defaults\<lparr>dirPath := Some ''nowhere''\<rparr>) = Some ''nowhere''" by simp
  have e5: "\<not> existsSync (nodeAt sampleWorld (resolve sampleWorld ''nowhere''))"
    by (simp add: main_eval)
  from exit_codes[where argv = "[''node'', ''index.js'', ''nowhere'']" and js = sampleLanguage
      and w = sampleWorld and opts = "defaults\<lparr>dirPath := Some ''nowhere''\<rparr>"
      and d = "''nowhere''"] h5 p5 d5 e5
  have d1: "exitCode (main sampleLanguage sampleWorld [''node'', ''index.js'', ''nowhere'']) = 1"
    and d2: "scanned (main sampleLanguage sampleWorld [''node'', ''index.js'', ''nowhere''])
               = None"
    by blast+
  have h6: "\<not> isHelpRequested [''node'', ''index.js'', ''notes.txt'']"
    by (simp add: isHelpRequested_def)
  have p6: "parseArguments sampleLanguage [''node'', ''index.js'', ''notes.txt'']
       = Inr (defaults\<lparr>dirPath := Some ''notes.txt''\<rparr>)"
    by (simp add: parse_eval)
  have d6: "dirPath (defaults\<lparr>dirPath := Some ''notes.txt''\<rparr>) = Some ''notes.txt''" by simp
  have e6: "existsSync (nodeAt sampleWorld (resolve sampleWorld ''notes.txt''))"
    "\<not> isDirectory (nodeAt sampleWorld (resolve sampleWorld ''notes.txt''))"
    by (simp_all add: main_eval)
  from exit_codes[where argv = "[''node'', ''index.js'', ''notes.txt'']" and js = sampleLanguage
      and w = sampleWorld and opts = "defaults\<lparr>dirPath := Some ''notes.txt''\<rparr>"
      and d = "''notes.txt''"] h6 p6 d6 e6
  have f1: "failed (main sampleLanguage sampleWorld [''node'', ''index.js'', ''notes.txt''])
       = Some NotADirectory"
    and f2: "exitCode (main sampleLanguage sampleWorld [''node'', ''index.js'', ''notes.txt''])
       = 1"
    by blast+
  have h7: "\<not> isHelpRequested [''node'', ''index.js'', ''root'', ''--ext'', ''.zip'']"
    by (simp add: isHelpRequested_def)
  have p7: "parseArguments sampleLanguage [''node'', ''index.js'', ''root'', ''--ext'', ''.zip'']
       = Inr (defaults\<lparr>dirPath := Some ''root'', extensions := [''.zip'']\<rparr>)"
    by (simp add: parse_eval)
  have d7: "dirPath (defaults\<lparr>dirPath := Some ''root'', extensions := [''.zip'']\<rparr>)
              = Some ''root''" by simp
  have e7: "isDirectory (nodeAt sampleWorld (resolve sampleWorld ''root''))"
    by (simp add: main_eval sampleTree_def)
  from exit_codes[where argv = "[''node'', ''index.js'', ''root'', ''--ext'', ''.zip'']"
      and js = sampleLanguage and w = sampleWorld
      and opts = "defaults\<lparr>dirPath := Some ''root'', extensions := [''.zip'']\<rparr>"
      and d = "''root''"] h7 p7 d7 e7
  have g1: "exitCode (main sampleLanguage sampleWorld
                  [''node'', ''index.js'', ''root'', ''--ext'', ''.zip'']) = 0"
    and g2: "scanned (main sampleLanguage sampleWorld
                 [''node'', ''index.js'', ''root'', ''--ext'', ''.zip''])
          = Some (scanDirectory sampleLanguage
                    (defaults\<lparr>dirPath := Some ''root'', extensions := [''.zip''],
                       baseDir := Some (resolve sampleWorld ''root'')\<rparr>)
                    (resolve sampleWorld ''root'') 0
                    (nodeAt sampleWorld (resolve sampleWorld ''root'')))"
    by blast+
  have g3: "scanDirectory sampleLanguage
                    (defaults\<lparr>dirPath := Some ''root'', extensions := [''.zip''],
                       baseDir := Some (resolve sampleWorld ''root'')\<rparr>)
                    (resolve sampleWorld ''root'') 0
                    (nodeAt sampleWorld (resolve sampleWorld ''root'')) = ([], [])"
    by (simp add: sampleWorld_def scan_eval string_defs)
  from h1 a1 a2 h2 p2 b1 h3 p3 l4 p4 c1 p5 e5 d1 d2 p6 e6 f1 f2 p7 e7 g1 g2[unfolded g3]
  show ?thesis by blast
qed

end
